theory Spec2Isabelle
  imports Complex_Main "HOL-Library.Log_Nat"
begin

section \<open>Python arithmetic and strings used by the services\<close>

subsection \<open>Binary64 floats\<close>

text \<open>
  The analyzer computes its percentages in Python floats:
  \<^verbatim>\<open>(unhealthy_records / total_records) * 100.0\<close>. A float is modelled by the rational
  number it denotes. \<open>int / int\<close> and \<open>float * float\<close> return the exact result rounded
  to the nearest binary64 value, ties to even (53 significant bits). The exponent range
  is not modelled: the values that occur are quotients of record counts and their
  products with 100, far from overflow and from the subnormal range.
\<close>

definition round_half_even :: "rat \<Rightarrow> int" where
  "round_half_even q =
     (let f = \<lfloor>q\<rfloor>; r = q - of_int f
      in if r < 1 / 2 then f else if 1 / 2 < r then f + 1
         else if even f then f else f + 1)"

text \<open>The binary exponent \<open>e\<close> of a positive rational: \<open>2\<^sup>e \<le> x < 2\<^sup>e\<^sup>+\<^sup>1\<close>.\<close>

definition float_exponent :: "rat \<Rightarrow> int" where
  "float_exponent x =
     (case quotient_of x of (p, q) \<Rightarrow>
        let d = bitlen p - bitlen q in if 2 powi d \<le> x then d else d - 1)"

definition round_binary64 :: "rat \<Rightarrow> rat" where
  "round_binary64 x =
     (if x = 0 then 0
      else let k = float_exponent \<bar>x\<bar> - 52
           in sgn x * of_int (round_half_even (\<bar>x\<bar> / 2 powi k)) * 2 powi k)"

datatype error =
    Service_not_found int     \<comment> \<open>\<^verbatim>\<open>ValueError("Service with ID ... not found")\<close>\<close>
  | Incident_not_found int    \<comment> \<open>\<^verbatim>\<open>ValueError("Incident with ID ... not found")\<close>\<close>
  | ZeroDivisionError
  | OverflowError             \<comment> \<open>a \<^verbatim>\<open>timedelta\<close> or \<^verbatim>\<open>datetime\<close> out of range\<close>
  | AmbiguousForeignKeysError \<comment> \<open>raised by SQLAlchemy when it configures the mappers\<close>
  | NoForeignKeysError        \<comment> \<open>likewise\<close>
  | Commit_failed             \<comment> \<open>the exception a failing \<^verbatim>\<open>session.commit()\<close> raises\<close>

definition py_truediv :: "int \<Rightarrow> int \<Rightarrow> error + rat" where
  "py_truediv a b =
     (if b = 0 then Inl ZeroDivisionError else Inr (round_binary64 (of_int a / of_int b)))"

definition py_fmul :: "rat \<Rightarrow> rat \<Rightarrow> rat" where
  "py_fmul x y = round_binary64 (x * y)"

subsection \<open>Formatting an integer inside an f-string\<close>

definition digit_char :: "nat \<Rightarrow> char" where
  "digit_char d = char_of (48 + d)"

function str_nat :: "nat \<Rightarrow> string" where
  "str_nat n = (if n < 10 then [digit_char n] else str_nat (n div 10) @ [digit_char (n mod 10)])"
  by pat_completeness auto
termination
  by (relation "measure (\<lambda>n. n)") auto

declare str_nat.simps [simp del]

definition str_int :: "int \<Rightarrow> string" where
  "str_int i = (if i < 0 then CHR ''-'' # str_nat (nat (- i)) else str_nat (nat i))"

subsection \<open>Dates and time spans\<close>

text \<open>
  A \<^verbatim>\<open>datetime\<close> is the number of microseconds since the epoch; it lies between
  \<^verbatim>\<open>datetime.min\<close> (year 1) and \<^verbatim>\<open>datetime.max\<close> (year 9999). \<^verbatim>\<open>timedelta(minutes=m)\<close>
  raises \<^verbatim>\<open>OverflowError\<close> when the span is longer than 999999999 days, and
  \<^verbatim>\<open>end_time - timedelta(...)\<close> raises it when the result leaves the range of
  \<^verbatim>\<open>datetime\<close>.
\<close>

definition minutes :: "int \<Rightarrow> int" where
  "minutes m = m * 60000000"

definition datetime_min :: int where
  "datetime_min = - 62135596800000000"

definition datetime_max :: int where
  "datetime_max = 253402300799999999"

definition timedelta_minutes :: "int \<Rightarrow> error + int" where
  "timedelta_minutes m =
     (if 999999999 < \<bar>minutes m div 86400000000\<bar> then Inl OverflowError
      else Inr (minutes m))"

definition datetime_sub :: "int \<Rightarrow> int \<Rightarrow> error + int" where
  "datetime_sub t delta =
     (if datetime_min \<le> t - delta \<and> t - delta \<le> datetime_max then Inr (t - delta)
      else Inl OverflowError)"

text \<open>\<^verbatim>\<open>end_time - timedelta(minutes=window)\<close>\<close>

definition window_start :: "int \<Rightarrow> int \<Rightarrow> error + int" where
  "window_start end_time window =
     (case timedelta_minutes window of
        Inl e \<Rightarrow> Inl e
      | Inr delta \<Rightarrow> datetime_sub end_time delta)"


section \<open>Data model\<close>

text \<open>
  Each SQLModel table class is a record; a table is the list of its rows in storage
  order. A call reads the clock once (\<open>now\<close>). Primary keys are assigned by the database
  on insert; \<open>next_id\<close> is the next value of the key sequence of a table from which no row
  is ever deleted. The store is generic in the row types of its incident and
  degradation-event tables: the two services declare these two classes with different
  columns. The records below are the classes of app/models/db\_models.py.
\<close>

datatype IncidentStatus = OPEN | CLOSED | ACKNOWLEDGED

datatype EventType = PLANNED | UNPLANNED

record Cloud_Services =
  cs_id :: int
  service_name :: string
  endpoint :: string
  is_live :: bool

record Health_Status =
  hs_id :: int
  hs_service_id :: int
  is_health :: bool
  hs_timestamp :: int
  hs_status_code :: int

record Incident =
  inc_id :: int
  created_by_event :: "int option"
  created_by_id :: "int option"
  created_by :: string
  inc_service_id :: int
  status :: IncidentStatus
  created_at :: int
  event_name :: string
  event_type :: EventType
  degradation_start :: int
  updated_at :: int
  updated_by_id :: "int option"
  updated_by :: "string option"
  event_description :: string

record Degradation_Events =
  de_id :: int
  de_service_id :: int
  de_incident_id :: "int option"
  de_timestamp :: int
  de_time_window_minutes :: int
  de_auto_triggered :: bool

record ('i, 'e) store =
  cloud_services :: "Cloud_Services list"
  health_status :: "Health_Status list"
  incidents :: "'i list"
  degradation_events :: "'e list"

type_synonym database = "(Incident, Degradation_Events) store"

definition next_id :: "int list \<Rightarrow> int" where
  "next_id ids = fold max ids 0 + 1"

text \<open>
  The module constants of app/services/degradation\_functions.py, read from the
  environment when the module is loaded, with the defaults written there.
\<close>

record settings =
  HEALTH_CHECK_WINDOW :: int
  DEGRADATION_THRESHOLD :: rat
  CONCENTRATED_FAILURES_THRESHOLD :: rat

definition default_settings :: settings where
  "default_settings =
     \<lparr>HEALTH_CHECK_WINDOW = 60, DEGRADATION_THRESHOLD = 70,
      CONCENTRATED_FAILURES_THRESHOLD = 90\<rparr>"

text \<open>
  The table classes of the DegradationService. That service imports them from
  \<^verbatim>\<open>Scheduler.model.models\<close>, a module that is not among the sources; Backend/models.py
  declares the classes with exactly the columns the service reads and writes, and is
  taken for it. \<^verbatim>\<open>Cloud_Services\<close> and \<^verbatim>\<open>Health_Status\<close> are the same in both files.
\<close>

record DS_Incident =
  ds_inc_id :: int
  ds_inc_service_id :: int
  ds_start_time :: int
  ds_end_time :: "int option"
  ds_status :: IncidentStatus
  ds_description :: string

record DS_Degradation_Events =
  dse_id :: int
  dse_service_id :: int
  dse_incident_id :: "int option"
  dse_timestamp :: int
  dse_failure_rate :: rat
  dse_time_window_minutes :: int
  dse_auto_triggered :: bool

type_synonym ds_database = "(DS_Incident, DS_Degradation_Events) store"


section \<open>Mapper configuration\<close>

text \<open>
  Before the first query SQLAlchemy configures the mappers of all table classes. For a
  \<^verbatim>\<open>Relationship\<close> it collects the foreign keys that link the two tables, in either
  direction; when the relationship names its \<^verbatim>\<open>foreign_keys\<close>, only those count. No
  foreign key is a \<^verbatim>\<open>NoForeignKeysError\<close>, more than one an
  \<^verbatim>\<open>AmbiguousForeignKeysError\<close>, and then every query of the process raises.
  A module of table classes is described by its foreign keys and its relationships.
\<close>

record foreign_key =
  fk_table :: string
  fk_column :: string
  fk_references :: string

record relationship =
  rel_table :: string
  rel_name :: string
  rel_target :: string
  rel_foreign_keys :: "(string \<times> string) list option"

record model_module =
  m_foreign_keys :: "foreign_key list"
  m_relationships :: "relationship list"

definition links :: "relationship \<Rightarrow> foreign_key \<Rightarrow> bool" where
  "links r k =
     ((fk_table k = rel_table r \<and> fk_references k = rel_target r)
      \<or> (fk_table k = rel_target r \<and> fk_references k = rel_table r))"

definition join_candidates :: "model_module \<Rightarrow> relationship \<Rightarrow> foreign_key list" where
  "join_candidates m r =
     (case rel_foreign_keys r of
        None \<Rightarrow> filter (links r) (m_foreign_keys m)
      | Some columns \<Rightarrow>
          filter (\<lambda>k. (fk_table k, fk_column k) \<in> set columns)
            (filter (links r) (m_foreign_keys m)))"

definition relationship_error :: "model_module \<Rightarrow> relationship \<Rightarrow> error option" where
  "relationship_error m r =
     (case join_candidates m r of
        [] \<Rightarrow> Some NoForeignKeysError
      | [k] \<Rightarrow> None
      | k # k' # ks \<Rightarrow> Some AmbiguousForeignKeysError)"

definition configure_mappers :: "model_module \<Rightarrow> error option" where
  "configure_mappers m =
     (case List.map_filter (relationship_error m) (m_relationships m) of
        [] \<Rightarrow> None
      | e # es \<Rightarrow> Some e)"

text \<open>\<^verbatim>\<open>session.exec(query)\<close>: the rows the query selects, once the mappers are configured.\<close>

definition session_exec :: "model_module \<Rightarrow> 'a \<Rightarrow> error + 'a" where
  "session_exec m rows = (case configure_mappers m of Some e \<Rightarrow> Inl e | None \<Rightarrow> Inr rows)"

definition fk :: "string \<Rightarrow> string \<Rightarrow> string \<Rightarrow> foreign_key" where
  "fk t c target = \<lparr>fk_table = t, fk_column = c, fk_references = target\<rparr>"

definition rel :: "string \<Rightarrow> string \<Rightarrow> string \<Rightarrow> relationship" where
  "rel t name target =
     \<lparr>rel_table = t, rel_name = name, rel_target = target, rel_foreign_keys = None\<rparr>"

definition rel_on :: "string \<Rightarrow> string \<Rightarrow> string \<Rightarrow> string \<Rightarrow> string \<Rightarrow> relationship" where
  "rel_on t name target key_table key_column =
     \<lparr>rel_table = t, rel_name = name, rel_target = target,
      rel_foreign_keys = Some [(key_table, key_column)]\<rparr>"

text \<open>
  app/models/db\_models.py. The incident and degradation-event tables reference each
  other (\<^verbatim>\<open>Incident.created_by_event\<close>, \<^verbatim>\<open>Degradation_Events.incident_id\<close>), and the two
  relationships between them name no \<^verbatim>\<open>foreign_keys\<close>, unlike the relationships between
  \<^verbatim>\<open>User\<close> and \<^verbatim>\<open>Incident\<close>.
\<close>

definition app_models :: model_module where
  "app_models =
     \<lparr>m_foreign_keys =
        [fk ''health_status'' ''service_id'' ''cloud_services'',
         fk ''comment'' ''incident_id'' ''incident'',
         fk ''comment'' ''user_id'' ''user'',
         fk ''incident'' ''created_by_event'' ''degradation_events'',
         fk ''incident'' ''created_by_id'' ''user'',
         fk ''incident'' ''service_id'' ''cloud_services'',
         fk ''incident'' ''updated_by_id'' ''user'',
         fk ''degradation_events'' ''service_id'' ''cloud_services'',
         fk ''degradation_events'' ''incident_id'' ''incident''],
      m_relationships =
        [rel ''cloud_services'' ''health_statuses'' ''health_status'',
         rel ''cloud_services'' ''degradation_events'' ''degradation_events'',
         rel ''cloud_services'' ''incidents'' ''incident'',
         rel ''health_status'' ''cloud_service'' ''cloud_services'',
         rel ''user'' ''comments'' ''comment'',
         rel_on ''user'' ''incidents_updated'' ''incident'' ''incident'' ''updated_by_id'',
         rel_on ''user'' ''incidents_created'' ''incident'' ''incident'' ''created_by_id'',
         rel ''comment'' ''incident'' ''incident'',
         rel ''comment'' ''user'' ''user'',
         rel ''incident'' ''cloud_service'' ''cloud_services'',
         rel ''incident'' ''degradation_events'' ''degradation_events'',
         rel ''incident'' ''comments'' ''comment'',
         rel_on ''incident'' ''created_by_user'' ''user'' ''incident'' ''created_by_id'',
         rel_on ''incident'' ''updated_by_user'' ''user'' ''incident'' ''updated_by_id'',
         rel ''degradation_events'' ''cloud_service'' ''cloud_services'',
         rel ''degradation_events'' ''incident'' ''incident'']\<rparr>"

text \<open>Backend/models.py: an incident has no reference to a degradation event.\<close>

definition backend_models :: model_module where
  "backend_models =
     \<lparr>m_foreign_keys =
        [fk ''health_status'' ''service_id'' ''cloud_services'',
         fk ''incident'' ''service_id'' ''cloud_services'',
         fk ''degradation_events'' ''service_id'' ''cloud_services'',
         fk ''degradation_events'' ''incident_id'' ''incident''],
      m_relationships =
        [rel ''cloud_services'' ''health_statuses'' ''health_status'',
         rel ''cloud_services'' ''degradation_events'' ''degradation_events'',
         rel ''cloud_services'' ''incidents'' ''incident'',
         rel ''health_status'' ''cloud_service'' ''cloud_services'',
         rel ''incident'' ''cloud_service'' ''cloud_services'',
         rel ''incident'' ''degradation_events'' ''degradation_events'',
         rel ''degradation_events'' ''cloud_service'' ''cloud_services'',
         rel ''degradation_events'' ''incident'' ''incident'']\<rparr>"


section \<open>Degradation analyzer\<close>

text \<open>
  \<^verbatim>\<open>select(Cloud_Services).where(Cloud_Services.id == service_id)\<close> followed by
  \<^verbatim>\<open>.first()\<close>.
\<close>

definition get_service :: "('i, 'e) store \<Rightarrow> int \<Rightarrow> Cloud_Services option" where
  "get_service db service_id = find (\<lambda>c. cs_id c = service_id) (cloud_services db)"

text \<open>
  The window query: the rows of one service with
  \<^verbatim>\<open>start_time <= timestamp <= end_time\<close>, \<^verbatim>\<open>order_by(Health_Status.timestamp)\<close>. Rows
  with equal timestamps, whose order SQL leaves open, keep their storage order.
\<close>

definition query_health_records ::
  "('i, 'e) store \<Rightarrow> int \<Rightarrow> int \<Rightarrow> int \<Rightarrow> Health_Status list" where
  "query_health_records db service_id start_time end_time =
     sort_key hs_timestamp
       (filter (\<lambda>h. hs_service_id h = service_id \<and> start_time \<le> hs_timestamp h
                     \<and> hs_timestamp h \<le> end_time)
          (health_status db))"

text \<open>\<^verbatim>\<open>sum(1 for record in records if not record.is_health)\<close>\<close>

definition count_unhealthy :: "Health_Status list \<Rightarrow> int" where
  "count_unhealthy records = int (length (filter (\<lambda>r. \<not> is_health r) records))"

text \<open>
  \<^verbatim>\<open>analyze_health_data(service_id, session)\<close> of
  app/services/degradation\_functions.py, on the table classes of
  app/models/db\_models.py. The session is the database it reads and the clock value
  \<open>now\<close> that \<^verbatim>\<open>datetime.now(timezone.utc)\<close> returns.
\<close>

definition analyze_health_data :: "settings \<Rightarrow> int \<Rightarrow> int \<Rightarrow> database \<Rightarrow> error + bool" where
  "analyze_health_data cfg now service_id db =
     (case session_exec app_models (get_service db service_id) of
        Inl e \<Rightarrow> Inl e
      | Inr None \<Rightarrow> Inl (Service_not_found service_id)
      | Inr (Some service) \<Rightarrow>
          let end_time = now
          in case window_start end_time (HEALTH_CHECK_WINDOW cfg) of
               Inl e \<Rightarrow> Inl e
             | Inr start_time \<Rightarrow>
                 (case session_exec app_models
                         (query_health_records db service_id start_time end_time) of
                    Inl e \<Rightarrow> Inl e
                  | Inr health_records \<Rightarrow>
                      if health_records = [] then Inr False
                      else
                        let total_records = int (length health_records);
                            unhealthy_records = count_unhealthy health_records
                        in case py_truediv unhealthy_records total_records of
                             Inl e \<Rightarrow> Inl e
                           | Inr ratio \<Rightarrow>
                               let failure_percentage = py_fmul ratio 100;
                                   is_degraded =
                                     (DEGRADATION_THRESHOLD cfg \<le> failure_percentage);
                                   mid_point = int (length health_records) div 2;
                                   recent_records = drop (nat mid_point) health_records;
                                   recent_unhealthy = count_unhealthy recent_records
                               in if 0 < unhealthy_records then
                                    (case py_truediv recent_unhealthy unhealthy_records of
                                       Inl e \<Rightarrow> Inl e
                                     | Inr recent_ratio \<Rightarrow>
                                         let recent_failure_percentage =
                                               py_fmul recent_ratio 100;
                                             recent_concentrated_failures =
                                               (CONCENTRATED_FAILURES_THRESHOLD cfg
                                                  \<le> recent_failure_percentage)
                                         in Inr (is_degraded \<or> recent_concentrated_failures))
                                  else Inr is_degraded))"

text \<open>
  \<^verbatim>\<open>analyze_health_data(service_id, time_window_minutes, session)\<close> of
  DegradationService/main.py, on the table classes of Backend/models.py: the same
  analysis with the window as an argument, the thresholds written as the literals 70.0
  and 90.0, and a dictionary as result.
\<close>

record analysis =
  a_failure_rate :: rat
  a_is_degraded :: bool
  a_recent_concentrated_failures :: bool
  a_total_records :: int
  a_unhealthy_records :: int

definition ds_analyze_health_data ::
  "int \<Rightarrow> int \<Rightarrow> int \<Rightarrow> ds_database \<Rightarrow> error + analysis" where
  "ds_analyze_health_data now service_id time_window_minutes db =
     (case session_exec backend_models (get_service db service_id) of
        Inl e \<Rightarrow> Inl e
      | Inr None \<Rightarrow> Inl (Service_not_found service_id)
      | Inr (Some service) \<Rightarrow>
          let end_time = now
          in case window_start end_time time_window_minutes of
               Inl e \<Rightarrow> Inl e
             | Inr start_time \<Rightarrow>
                 (case session_exec backend_models
                         (query_health_records db service_id start_time end_time) of
                    Inl e \<Rightarrow> Inl e
                  | Inr health_records \<Rightarrow>
                      if health_records = [] then
                        Inr \<lparr>a_failure_rate = 0, a_is_degraded = False,
                             a_recent_concentrated_failures = False,
                             a_total_records = 0, a_unhealthy_records = 0\<rparr>
                      else
                        let total_records = int (length health_records);
                            unhealthy_records = count_unhealthy health_records
                        in case py_truediv unhealthy_records total_records of
                             Inl e \<Rightarrow> Inl e
                           | Inr ratio \<Rightarrow>
                               let failure_rate = py_fmul ratio 100;
                                   is_degraded = (70 \<le> failure_rate);
                                   mid_point = int (length health_records) div 2;
                                   recent_records = drop (nat mid_point) health_records;
                                   recent_unhealthy = count_unhealthy recent_records
                               in case (if 0 < unhealthy_records then
                                          (case py_truediv recent_unhealthy unhealthy_records of
                                             Inl e \<Rightarrow> Inl e
                                           | Inr recent_ratio \<Rightarrow>
                                               Inr (90 \<le> py_fmul recent_ratio 100))
                                        else Inr False) of
                                    Inl e \<Rightarrow> Inl e
                                  | Inr recent_concentrated_failures \<Rightarrow>
                                      Inr \<lparr>a_failure_rate = failure_rate,
                                           a_is_degraded =
                                             (is_degraded \<or> recent_concentrated_failures),
                                           a_recent_concentrated_failures =
                                             recent_concentrated_failures,
                                           a_total_records = total_records,
                                           a_unhealthy_records = unhealthy_records\<rparr>))"

text \<open>
  The two conditions as the specification words them, in exact arithmetic over the
  ordered list of in-window observations.
\<close>

definition spec_condition_A :: "Health_Status list \<Rightarrow> bool" where
  "spec_condition_A hs =
     (70 \<le> (of_int (count_unhealthy hs) :: rat) / of_nat (length hs) * 100)"

definition spec_condition_B :: "Health_Status list \<Rightarrow> bool" where
  "spec_condition_B hs =
     (0 < count_unhealthy hs \<and>
      90 \<le> (of_int (count_unhealthy (drop (length hs div 2) hs)) :: rat)
             / of_int (count_unhealthy hs) * 100)"


section \<open>Incident correlator (app/services/degradation\_functions.py)\<close>

text \<open>On the table classes of app/models/db\_models.py.\<close>

text \<open>The dictionary \<^verbatim>\<open>{"incident_id": ..., "message": ...}\<close> that the correlator returns.\<close>

record result =
  incident_id :: "int option"
  message :: string

text \<open>
  The correlator commits three times. Each \<^verbatim>\<open>session.commit()\<close> either makes the pending
  row change durable or raises and leaves the tables as the previous commit left them;
  \<open>commit_ok\<close> says which of the three succeed.
\<close>

datatype commit_point = Event_insert | Incident_insert | Event_backfill

definition all_commits_ok :: "commit_point \<Rightarrow> bool" where
  "all_commits_ok w = True"

definition commits_ok_except :: "commit_point \<Rightarrow> commit_point \<Rightarrow> bool" where
  "commits_ok_except failing w = (w \<noteq> failing)"

text \<open>
  \<^verbatim>\<open>select(Incident).where(and_(Incident.service_id == service_id,
  Incident.status.in_([OPEN, ACKNOWLEDGED])))\<close> followed by \<^verbatim>\<open>.first()\<close>.
\<close>

definition is_open_for :: "int \<Rightarrow> Incident \<Rightarrow> bool" where
  "is_open_for service_id i =
     (inc_service_id i = service_id \<and> status i \<in> set [OPEN, ACKNOWLEDGED])"

definition find_open_incident :: "database \<Rightarrow> int \<Rightarrow> Incident option" where
  "find_open_incident db service_id = find (is_open_for service_id) (incidents db)"

text \<open>The \<^verbatim>\<open>Degradation_Events(...)\<close> row of lines 99-105, with the key the insert gives it.\<close>

definition new_degradation_event ::
  "settings \<Rightarrow> int \<Rightarrow> int \<Rightarrow> bool \<Rightarrow> Incident option \<Rightarrow> database \<Rightarrow> Degradation_Events" where
  "new_degradation_event cfg now service_id auto_triggered open_incident db =
     \<lparr>de_id = next_id (map de_id (degradation_events db)),
      de_service_id = service_id,
      de_incident_id = map_option inc_id open_incident,
      de_timestamp = now,
      de_time_window_minutes = HEALTH_CHECK_WINDOW cfg,
      de_auto_triggered = auto_triggered\<rparr>"

text \<open>
  The \<^verbatim>\<open>Incident(...)\<close> row of lines 112-119; the fields the constructor call leaves out
  take the defaults of the table class (status OPEN, the three timestamps now).
\<close>

definition new_incident ::
  "int \<Rightarrow> int \<Rightarrow> bool \<Rightarrow> Cloud_Services \<Rightarrow> Degradation_Events \<Rightarrow> database \<Rightarrow> Incident" where
  "new_incident now service_id auto_triggered service degradation_event db =
     \<lparr>inc_id = next_id (map inc_id (incidents db)),
      created_by_event = Some (de_id degradation_event),
      created_by_id = None,
      created_by = (if auto_triggered then ''auto_run'' else ''user''),
      inc_service_id = service_id,
      status = OPEN,
      created_at = now,
      event_name = ''Service Degradation - '' @ service_name service,
      event_type = UNPLANNED,
      degradation_start = now,
      updated_at = now,
      updated_by_id = None,
      updated_by = None,
      event_description = ''Service degradation detected for '' @ service_name service\<rparr>"

definition insert_event :: "'e \<Rightarrow> ('i, 'e) store \<Rightarrow> ('i, 'e) store" where
  "insert_event e db = db\<lparr>degradation_events := degradation_events db @ [e]\<rparr>"

definition insert_incident :: "'i \<Rightarrow> ('i, 'e) store \<Rightarrow> ('i, 'e) store" where
  "insert_incident i db = db\<lparr>incidents := incidents db @ [i]\<rparr>"

text \<open>\<^verbatim>\<open>degradation_event.incident_id = incident.id\<close>, written back by primary key.\<close>

definition backfill_event :: "int \<Rightarrow> int \<Rightarrow> database \<Rightarrow> database" where
  "backfill_event event_id new_incident_id db =
     db\<lparr>degradation_events :=
          map (\<lambda>e. if de_id e = event_id then e\<lparr>de_incident_id := Some new_incident_id\<rparr> else e)
            (degradation_events db)\<rparr>"

definition not_degraded_result :: "Cloud_Services \<Rightarrow> result" where
  "not_degraded_result service =
     \<lparr>incident_id = None,
      message = ''Service '' @ service_name service @ '' is not degraded''\<rparr>"

definition new_incident_result :: "Cloud_Services \<Rightarrow> Incident \<Rightarrow> result" where
  "new_incident_result service incident =
     \<lparr>incident_id = Some (inc_id incident),
      message = ''New incident created for '' @ service_name service @ '' (ID: ''
                  @ str_int (inc_id incident) @ '')''\<rparr>"

definition existing_incident_result :: "Cloud_Services \<Rightarrow> Incident \<Rightarrow> result" where
  "existing_incident_result service open_incident =
     \<lparr>incident_id = Some (inc_id open_incident),
      message = ''Added degradation event to existing incident (ID: ''
                  @ str_int (inc_id open_incident) @ '') for '' @ service_name service\<rparr>"

text \<open>
  \<^verbatim>\<open>handle_degradation_and_incidents(service_id, is_degraded, auto_triggered, session)\<close>.
  The result is what the call returns or raises, and the database it leaves.
\<close>

definition handle_degradation_and_incidents ::
  "settings \<Rightarrow> (commit_point \<Rightarrow> bool) \<Rightarrow> int \<Rightarrow> int \<Rightarrow> bool \<Rightarrow> bool \<Rightarrow> database
     \<Rightarrow> (error + result) \<times> database" where
  "handle_degradation_and_incidents cfg commit_ok now service_id is_degraded auto_triggered db =
     (case session_exec app_models (get_service db service_id) of
        Inl e \<Rightarrow> (Inl e, db)
      | Inr None \<Rightarrow> (Inl (Service_not_found service_id), db)
      | Inr (Some service) \<Rightarrow>
          if \<not> is_degraded then (Inr (not_degraded_result service), db)
          else
            (case session_exec app_models (find_open_incident db service_id) of
               Inl e \<Rightarrow> (Inl e, db)
             | Inr open_incident \<Rightarrow>
                 let degradation_event =
                       new_degradation_event cfg now service_id auto_triggered open_incident db
                 in if \<not> commit_ok Event_insert then (Inl Commit_failed, db)
                    else
                      let db1 = insert_event degradation_event db
                      in case open_incident of
                           None \<Rightarrow>
                             let incident =
                                   new_incident now service_id auto_triggered service
                                     degradation_event db1
                             in if \<not> commit_ok Incident_insert then (Inl Commit_failed, db1)
                                else
                                  let db2 = insert_incident incident db1
                                  in if \<not> commit_ok Event_backfill
                                     then (Inl Commit_failed, db2)
                                     else (Inr (new_incident_result service incident),
                                           backfill_event (de_id degradation_event)
                                             (inc_id incident) db2)
                         | Some existing \<Rightarrow>
                             (Inr (existing_incident_result service existing), db1)))"

subsection \<open>Updating an incident\<close>

text \<open>
  \<^verbatim>\<open>update_data\<close> is the dictionary the PATCH endpoint builds from an
  \<^verbatim>\<open>UpdateIncidentRequest\<close>: its keys are among \<^verbatim>\<open>status\<close>, \<^verbatim>\<open>event_description\<close> and
  \<^verbatim>\<open>updated_by\<close>, each with a value that may be \<^verbatim>\<open>None\<close>. An item of the dictionary
  is a key with its value; the dictionary is the list of its items.
\<close>

datatype update_item =
    Set_status "IncidentStatus option"
  | Set_event_description "string option"
  | Set_updated_by "string option"

fun update_key :: "update_item \<Rightarrow> string" where
  "update_key (Set_status v) = ''status''"
| "update_key (Set_event_description v) = ''event_description''"
| "update_key (Set_updated_by v) = ''updated_by''"

text \<open>\<^verbatim>\<open>if value is not None: setattr(incident, field, value)\<close>\<close>

fun setattr_item :: "update_item \<Rightarrow> Incident \<Rightarrow> Incident" where
  "setattr_item (Set_status None) incident = incident"
| "setattr_item (Set_status (Some v)) incident = incident\<lparr>status := v\<rparr>"
| "setattr_item (Set_event_description None) incident = incident"
| "setattr_item (Set_event_description (Some v)) incident = incident\<lparr>event_description := v\<rparr>"
| "setattr_item (Set_updated_by None) incident = incident"
| "setattr_item (Set_updated_by (Some v)) incident = incident\<lparr>updated_by := Some v\<rparr>"

definition get_incident :: "database \<Rightarrow> int \<Rightarrow> Incident option" where
  "get_incident db i = find (\<lambda>r. inc_id r = i) (incidents db)"

definition update_incident ::
  "bool \<Rightarrow> int \<Rightarrow> int \<Rightarrow> update_item list \<Rightarrow> database \<Rightarrow> (error + Incident) \<times> database" where
  "update_incident commit_ok now i update_data db =
     (case session_exec app_models (get_incident db i) of
        Inl e \<Rightarrow> (Inl e, db)
      | Inr None \<Rightarrow> (Inl (Incident_not_found i), db)
      | Inr (Some incident) \<Rightarrow>
          let incident1 = fold setattr_item update_data incident;
              incident2 = incident1\<lparr>updated_at := now\<rparr>
          in if \<not> commit_ok then (Inl Commit_failed, db)
             else (Inr incident2,
                   db\<lparr>incidents :=
                        map (\<lambda>r. if inc_id r = i then incident2 else r) (incidents db)\<rparr>))"


section \<open>Incident correlator (DegradationService/main.py)\<close>

text \<open>
  The correlator of the DegradationService, on the table classes of Backend/models.py:
  an incident has a start time, a status and a description, a degradation event records
  the failure rate. Its result also names the event, and its messages print the failure
  rate with \<^verbatim>\<open>{failure_rate:.2f}\<close>; that formatting is the parameter \<open>format_2f\<close>.
\<close>

record ds_result =
  r_degradation_event_id :: "int option"
  r_incident_id :: "int option"
  r_message :: string

definition ds_is_open_for :: "int \<Rightarrow> DS_Incident \<Rightarrow> bool" where
  "ds_is_open_for service_id i =
     (ds_inc_service_id i = service_id \<and> ds_status i \<in> set [OPEN, ACKNOWLEDGED])"

definition ds_find_open_incident :: "ds_database \<Rightarrow> int \<Rightarrow> DS_Incident option" where
  "ds_find_open_incident db service_id = find (ds_is_open_for service_id) (incidents db)"

text \<open>The \<^verbatim>\<open>Degradation_Events(...)\<close> row of lines 150-157, with the key the insert gives it.\<close>

definition ds_new_degradation_event ::
  "int \<Rightarrow> int \<Rightarrow> rat \<Rightarrow> int \<Rightarrow> bool \<Rightarrow> DS_Incident option \<Rightarrow> ds_database
     \<Rightarrow> DS_Degradation_Events" where
  "ds_new_degradation_event now service_id failure_rate time_window_minutes auto_triggered
       open_incident db =
     \<lparr>dse_id = next_id (map dse_id (degradation_events db)),
      dse_service_id = service_id,
      dse_incident_id = map_option ds_inc_id open_incident,
      dse_timestamp = now,
      dse_failure_rate = failure_rate,
      dse_time_window_minutes = time_window_minutes,
      dse_auto_triggered = auto_triggered\<rparr>"

text \<open>The \<^verbatim>\<open>Incident(...)\<close> row of lines 166-171.\<close>

definition ds_new_incident ::
  "(rat \<Rightarrow> string) \<Rightarrow> int \<Rightarrow> int \<Rightarrow> rat \<Rightarrow> ds_database \<Rightarrow> DS_Incident" where
  "ds_new_incident format_2f now service_id failure_rate db =
     \<lparr>ds_inc_id = next_id (map ds_inc_id (incidents db)),
      ds_inc_service_id = service_id,
      ds_start_time = now,
      ds_end_time = None,
      ds_status = OPEN,
      ds_description =
        ''Automated incident created due to service degradation. Failure rate: ''
          @ format_2f failure_rate @ ''%''\<rparr>"

text \<open>\<^verbatim>\<open>degradation_event.incident_id = incident.id\<close>, written back by primary key.\<close>

definition ds_backfill_event :: "int \<Rightarrow> int \<Rightarrow> ds_database \<Rightarrow> ds_database" where
  "ds_backfill_event event_id new_incident_id db =
     db\<lparr>degradation_events :=
          map (\<lambda>e. if dse_id e = event_id then e\<lparr>dse_incident_id := Some new_incident_id\<rparr> else e)
            (degradation_events db)\<rparr>"

definition ds_not_degraded_result :: "(rat \<Rightarrow> string) \<Rightarrow> Cloud_Services \<Rightarrow> rat \<Rightarrow> ds_result" where
  "ds_not_degraded_result format_2f service failure_rate =
     \<lparr>r_degradation_event_id = None, r_incident_id = None,
      r_message = ''Service '' @ service_name service @ '' is not degraded (failure rate: ''
                    @ format_2f failure_rate @ ''%)''\<rparr>"

definition ds_new_incident_result ::
  "(rat \<Rightarrow> string) \<Rightarrow> Cloud_Services \<Rightarrow> rat \<Rightarrow> DS_Degradation_Events \<Rightarrow> DS_Incident
     \<Rightarrow> ds_result" where
  "ds_new_incident_result format_2f service failure_rate degradation_event incident =
     \<lparr>r_degradation_event_id = Some (dse_id degradation_event),
      r_incident_id = Some (ds_inc_id incident),
      r_message = ''New incident created for '' @ service_name service @ '' (ID: ''
                    @ str_int (ds_inc_id incident) @ ''). Failure rate: ''
                    @ format_2f failure_rate @ ''%''\<rparr>"

definition ds_existing_incident_result ::
  "(rat \<Rightarrow> string) \<Rightarrow> Cloud_Services \<Rightarrow> rat \<Rightarrow> DS_Degradation_Events \<Rightarrow> DS_Incident
     \<Rightarrow> ds_result" where
  "ds_existing_incident_result format_2f service failure_rate degradation_event open_incident =
     \<lparr>r_degradation_event_id = Some (dse_id degradation_event),
      r_incident_id = Some (ds_inc_id open_incident),
      r_message = ''Added degradation event to existing incident (ID: ''
                    @ str_int (ds_inc_id open_incident) @ '') for '' @ service_name service
                    @ ''. Failure rate: '' @ format_2f failure_rate @ ''%''\<rparr>"

text \<open>
  \<^verbatim>\<open>handle_degradation_and_incidents(service_id, failure_rate, is_degraded,
  time_window_minutes, auto_triggered, session)\<close>. The result is what the call returns or
  raises, and the database it leaves.
\<close>

definition ds_handle_degradation_and_incidents ::
  "(rat \<Rightarrow> string) \<Rightarrow> (commit_point \<Rightarrow> bool) \<Rightarrow> int \<Rightarrow> int \<Rightarrow> rat \<Rightarrow> bool \<Rightarrow> int \<Rightarrow> bool
     \<Rightarrow> ds_database \<Rightarrow> (error + ds_result) \<times> ds_database" where
  "ds_handle_degradation_and_incidents format_2f commit_ok now service_id failure_rate
       is_degraded time_window_minutes auto_triggered db =
     (case session_exec backend_models (get_service db service_id) of
        Inl e \<Rightarrow> (Inl e, db)
      | Inr None \<Rightarrow> (Inl (Service_not_found service_id), db)
      | Inr (Some service) \<Rightarrow>
          if \<not> is_degraded then
            (Inr (ds_not_degraded_result format_2f service failure_rate), db)
          else
            (case session_exec backend_models (ds_find_open_incident db service_id) of
               Inl e \<Rightarrow> (Inl e, db)
             | Inr open_incident \<Rightarrow>
                 let degradation_event =
                       ds_new_degradation_event now service_id failure_rate
                         time_window_minutes auto_triggered open_incident db
                 in if \<not> commit_ok Event_insert then (Inl Commit_failed, db)
                    else
                      let db1 = insert_event degradation_event db
                      in case open_incident of
                           None \<Rightarrow>
                             let incident =
                                   ds_new_incident format_2f now service_id failure_rate db1
                             in if \<not> commit_ok Incident_insert then (Inl Commit_failed, db1)
                                else
                                  let db2 = insert_incident incident db1
                                  in if \<not> commit_ok Event_backfill
                                     then (Inl Commit_failed, db2)
                                     else
                                       (Inr (ds_new_incident_result format_2f service
                                               failure_rate degradation_event incident),
                                        ds_backfill_event (dse_id degradation_event)
                                          (ds_inc_id incident) db2)
                         | Some existing \<Rightarrow>
                             (Inr (ds_existing_incident_result format_2f service failure_rate
                                     degradation_event existing),
                              db1)))"

text \<open>The incidents of a service that are OPEN or ACKNOWLEDGED.\<close>

definition ds_open_incidents :: "ds_database \<Rightarrow> int \<Rightarrow> DS_Incident list" where
  "ds_open_incidents db service_id = filter (ds_is_open_for service_id) (incidents db)"


section \<open>Concurrent correlator calls\<close>

text \<open>
  Each request to the DegradationService runs \<^verbatim>\<open>handle_degradation_and_incidents\<close> in its
  own session on the shared database. Between two statements that reach the database
  (a query, a commit) another request can run. A call is therefore a sequence of atomic
  steps, with the values it holds in local variables between them; the code takes no
  lock and opens no enclosing transaction, so any interleaving of the steps of two
  calls is a possible run. Every commit succeeds here.
\<close>

record call =
  c_now :: int
  c_service_id :: int
  c_failure_rate :: rat
  c_is_degraded :: bool
  c_time_window_minutes :: int
  c_auto_triggered :: bool

datatype call_state =
    At_start
  | At_incident_query Cloud_Services
  | At_event_insert Cloud_Services "DS_Incident option"
  | At_incident_insert Cloud_Services DS_Degradation_Events
  | At_event_backfill Cloud_Services DS_Degradation_Events DS_Incident
  | Returned ds_result
  | Raised error

fun call_step ::
  "(rat \<Rightarrow> string) \<Rightarrow> call \<Rightarrow> call_state \<Rightarrow> ds_database \<Rightarrow> call_state \<times> ds_database" where
  "call_step format_2f c At_start db =
     (case session_exec backend_models (get_service db (c_service_id c)) of
        Inl e \<Rightarrow> (Raised e, db)
      | Inr None \<Rightarrow> (Raised (Service_not_found (c_service_id c)), db)
      | Inr (Some service) \<Rightarrow>
          if \<not> c_is_degraded c then
            (Returned (ds_not_degraded_result format_2f service (c_failure_rate c)), db)
          else (At_incident_query service, db))"
| "call_step format_2f c (At_incident_query service) db =
     (case session_exec backend_models (ds_find_open_incident db (c_service_id c)) of
        Inl e \<Rightarrow> (Raised e, db)
      | Inr open_incident \<Rightarrow> (At_event_insert service open_incident, db))"
| "call_step format_2f c (At_event_insert service open_incident) db =
     (let degradation_event =
            ds_new_degradation_event (c_now c) (c_service_id c) (c_failure_rate c)
              (c_time_window_minutes c) (c_auto_triggered c) open_incident db;
          db1 = insert_event degradation_event db
      in case open_incident of
           None \<Rightarrow> (At_incident_insert service degradation_event, db1)
         | Some existing \<Rightarrow>
             (Returned (ds_existing_incident_result format_2f service (c_failure_rate c)
                          degradation_event existing),
              db1))"
| "call_step format_2f c (At_incident_insert service degradation_event) db =
     (let incident = ds_new_incident format_2f (c_now c) (c_service_id c) (c_failure_rate c) db
      in (At_event_backfill service degradation_event incident, insert_incident incident db))"
| "call_step format_2f c (At_event_backfill service degradation_event incident) db =
     (Returned (ds_new_incident_result format_2f service (c_failure_rate c) degradation_event
                  incident),
      ds_backfill_event (dse_id degradation_event) (ds_inc_id incident) db)"
| "call_step format_2f c (Returned r) db = (Returned r, db)"
| "call_step format_2f c (Raised e) db = (Raised e, db)"

text \<open>One call run alone: its steps in order, until it has returned or raised.\<close>

definition run_call :: "(rat \<Rightarrow> string) \<Rightarrow> call \<Rightarrow> ds_database \<Rightarrow> call_state \<times> ds_database" where
  "run_call format_2f c db =
     ((\<lambda>(s, d). call_step format_2f c s d) ^^ 5) (At_start, db)"

text \<open>
  Two calls on one database. The schedule says whose step comes next
  (\<open>True\<close>: the first call's).
\<close>

fun interleave ::
  "(rat \<Rightarrow> string) \<Rightarrow> call \<Rightarrow> call \<Rightarrow> bool list \<Rightarrow> call_state \<times> call_state \<times> ds_database
     \<Rightarrow> call_state \<times> call_state \<times> ds_database" where
  "interleave format_2f c1 c2 [] st = st"
| "interleave format_2f c1 c2 (first # schedule) (s1, s2, db) =
     (if first then
        (case call_step format_2f c1 s1 db of
           (s1', db') \<Rightarrow> interleave format_2f c1 c2 schedule (s1', s2, db'))
      else
        (case call_step format_2f c2 s2 db of
           (s2', db') \<Rightarrow> interleave format_2f c1 c2 schedule (s1, s2', db')))"


section \<open>Prober (Scheduler/Scheduler/scheduler.py)\<close>

text \<open>
  What a call that may raise did: \<open>Inl\<close> the exception (with its \<^verbatim>\<open>str\<close>), \<open>Inr\<close> the
  value returned. \<^verbatim>\<open>requests.get\<close> and \<^verbatim>\<open>requests.post\<close> are parameters: functions from
  the URL to what the request did. Of a response the code reads the status code and,
  of the degradation service's answer, the JSON body.
\<close>

datatype exn = Exception string

record degradation_data =
  dd_is_degraded :: "bool option"
  dd_message :: "string option"

record post_response =
  pr_status_code :: int
  pr_json :: "exn + degradation_data"

record check_result =
  cr_service_id :: int
  cr_is_health :: bool
  cr_timestamp :: int
  cr_status_code :: int
  cr_service_name :: string

text \<open>The body of the second \<^verbatim>\<open>try\<close>: the lines it prints, or the exception it raises.\<close>

definition trigger_degradation_check ::
  "(string \<Rightarrow> exn + post_response) \<Rightarrow> Cloud_Services \<Rightarrow> exn + string list" where
  "trigger_degradation_check requests_post service =
     (let degradation_url =
            ''http://localhost:8001/auto-check-degradation/'' @ str_int (cs_id service)
      in case requests_post degradation_url of
           Inl e \<Rightarrow> Inl e
         | Inr degradation_response \<Rightarrow>
             if pr_status_code degradation_response = 200 then
               (case pr_json degradation_response of
                  Inl e \<Rightarrow> Inl e
                | Inr data \<Rightarrow>
                    if dd_is_degraded data = Some True then
                      Inr ((''DEGRADATION ALERT: Service '' @ service_name service
                              @ '' is DEGRADED!'')
                           # (case dd_message data of
                                None \<Rightarrow> []
                              | Some m \<Rightarrow> [''Message: '' @ m]))
                    else Inr [])
             else Inr [])"

text \<open>
  \<^verbatim>\<open>check_single_endpoint(service)\<close>: the dictionary it returns and the lines it prints,
  or the exception that leaves it.
\<close>

definition check_single_endpoint ::
  "(string \<Rightarrow> exn + int) \<Rightarrow> (string \<Rightarrow> exn + post_response) \<Rightarrow> int \<Rightarrow> Cloud_Services
     \<Rightarrow> exn + check_result \<times> string list" where
  "check_single_endpoint requests_get requests_post now service =
     (let (is_healthy, status_code, printed) =
            (case requests_get (endpoint service) of
               Inr response_status_code \<Rightarrow>
                 (200 \<le> response_status_code \<and> response_status_code < 300,
                  response_status_code, [])
             | Inl (Exception e) \<Rightarrow>
                 (False, 0,
                  [''Error checking '' @ service_name service @ '' at '' @ endpoint service
                     @ '': '' @ e]));
          printed2 =
            (if \<not> is_healthy then
               (case trigger_degradation_check requests_post service of
                  Inr lines \<Rightarrow> lines
                | Inl (Exception e) \<Rightarrow>
                    [''Failed to check degradation for service '' @ service_name service
                       @ '': '' @ e])
             else [])
      in Inr (\<lparr>cr_service_id = cs_id service,
               cr_is_health = is_healthy,
               cr_timestamp = now,
               cr_status_code = status_code,
               cr_service_name = service_name service\<rparr>,
              printed @ printed2))"


section \<open>Example stores\<close>

definition example_service :: Cloud_Services where
  "example_service =
     \<lparr>cs_id = 1, service_name = ''payments'', endpoint = ''http://payments.local/health'',
      is_live = True\<rparr>"

definition probe :: "int \<Rightarrow> int \<Rightarrow> int \<Rightarrow> int \<Rightarrow> Health_Status" where
  "probe row service_id minute code =
     \<lparr>hs_id = row, hs_service_id = service_id, is_health = (200 \<le> code \<and> code < 300),
      hs_timestamp = minutes minute, hs_status_code = code\<rparr>"

definition example_db :: "Health_Status list \<Rightarrow> ds_database" where
  "example_db rows =
     \<lparr>cloud_services = [example_service], health_status = rows, incidents = [],
      degradation_events = []\<rparr>"

definition rows_out_of_window :: "Health_Status list" where
  "rows_out_of_window = [probe 1 1 10 500, probe 2 2 100 500]"

definition rows_single :: "Health_Status list" where
  "rows_single = [probe 1 1 10 500, probe 2 2 100 500, probe 3 1 100 0]"

definition rows_one_recent :: "Health_Status list" where
  "rows_one_recent =
     [probe 1 1 115 503, probe 2 1 100 200, probe 3 1 105 200, probe 4 1 110 200]"

definition rows_seventy_percent :: "Health_Status list" where
  "rows_seventy_percent =
     [probe 1 1 75 500, probe 2 1 70 500, probe 3 1 65 200, probe 4 1 80 200,
      probe 5 1 85 500, probe 6 1 90 500, probe 7 1 95 500, probe 8 1 100 200,
      probe 9 1 105 500, probe 10 1 110 500]"

definition window_one_recent :: "Health_Status list" where
  "window_one_recent =
     [probe 2 1 100 200, probe 3 1 105 200, probe 4 1 110 200, probe 1 1 115 503]"

definition window_seventy_percent :: "Health_Status list" where
  "window_seventy_percent =
     [probe 3 1 65 200, probe 2 1 70 500, probe 1 1 75 500, probe 4 1 80 200,
      probe 5 1 85 500, probe 6 1 90 500, probe 7 1 95 500, probe 8 1 100 200,
      probe 9 1 105 500, probe 10 1 110 500]"

definition example_incident :: "IncidentStatus \<Rightarrow> DS_Incident" where
  "example_incident st =
     \<lparr>ds_inc_id = 7, ds_inc_service_id = 1, ds_start_time = minutes 30, ds_end_time = None,
      ds_status = st,
      ds_description =
        ''Automated incident created due to service degradation. Failure rate: 80.00%''\<rparr>"

definition example_db_with_incident :: "IncidentStatus \<Rightarrow> ds_database" where
  "example_db_with_incident st =
     \<lparr>cloud_services = [example_service], health_status = [],
      incidents = [example_incident st], degradation_events = []\<rparr>"

text \<open>
  \<^verbatim>\<open>{:.2f}\<close> for the non-negative rates of the examples: the value rounded to hundredths,
  ties to even.
\<close>

definition percent_2f :: "rat \<Rightarrow> string" where
  "percent_2f x =
     (let q = round_half_even (x * 100)
      in str_int (q div 100) @ ''.'' @ [digit_char (nat (q mod 100 div 10)),
                                          digit_char (nat (q mod 10))])"

definition call_a :: call where
  "call_a =
     \<lparr>c_now = minutes 120, c_service_id = 1, c_failure_rate = 80, c_is_degraded = True,
      c_time_window_minutes = 60, c_auto_triggered = True\<rparr>"

definition call_b :: call where
  "call_b =
     \<lparr>c_now = minutes 121, c_service_id = 1, c_failure_rate = 80, c_is_degraded = True,
      c_time_window_minutes = 60, c_auto_triggered = False\<rparr>"

definition race_schedule :: "bool list" where
  "race_schedule = [True, True, False, False, True, True, True, False, False, False]"

text \<open>The same store on the table classes of the app, with a CLOSED incident.\<close>

definition app_example_incident :: "IncidentStatus \<Rightarrow> Incident" where
  "app_example_incident st =
     \<lparr>inc_id = 7, created_by_event = Some 3, created_by_id = None, created_by = ''auto_run'',
      inc_service_id = 1, status = st, created_at = minutes 30,
      event_name = ''Service Degradation - payments'', event_type = UNPLANNED,
      degradation_start = minutes 30, updated_at = minutes 30, updated_by_id = None,
      updated_by = None, event_description = ''Service degradation detected for payments''\<rparr>"

definition app_example_db :: "IncidentStatus \<Rightarrow> database" where
  "app_example_db st =
     \<lparr>cloud_services = [example_service], health_status = [],
      incidents = [app_example_incident st], degradation_events = []\<rparr>"

definition reopen_request :: "update_item list" where
  "reopen_request = [Set_status (Some OPEN), Set_updated_by (Some ''alice'')]"

definition get_returns :: "int \<Rightarrow> string \<Rightarrow> exn + int" where
  "get_returns code url = Inr code"

definition get_raises :: "string \<Rightarrow> exn + int" where
  "get_raises url = Inl (Exception ''Read timed out'')"

definition post_raises :: "string \<Rightarrow> exn + post_response" where
  "post_raises url = Inl (Exception ''Connection refused'')"

definition post_degraded :: "string \<Rightarrow> exn + post_response" where
  "post_degraded url =
     Inr \<lparr>pr_status_code = 200,
          pr_json = Inr \<lparr>dd_is_degraded = Some True, dd_message = Some ''New incident''\<rparr>\<rparr>"


section \<open>Properties of the float model\<close>

lemma round_half_even_cases:
  "round_half_even q = \<lfloor>q\<rfloor> \<or> round_half_even q = \<lfloor>q\<rfloor> + 1"
  by (simp add: round_half_even_def Let_def)

lemma round_half_even_of_int: "round_half_even (of_int n) = n"
  by (simp add: round_half_even_def)

lemma round_half_even_mono: "a \<le> b \<Longrightarrow> round_half_even a \<le> round_half_even b"
proof -
  assume ab: "a \<le> b"
  have fab: "\<lfloor>a\<rfloor> \<le> \<lfloor>b\<rfloor>" using ab by (rule floor_mono)
  show ?thesis
  proof (cases "\<lfloor>a\<rfloor> = \<lfloor>b\<rfloor>")
    case True
    then show ?thesis using ab by (auto simp: round_half_even_def Let_def)
  next
    case False
    then have "\<lfloor>a\<rfloor> + 1 \<le> \<lfloor>b\<rfloor>" using fab by simp
    moreover have "round_half_even a \<le> \<lfloor>a\<rfloor> + 1"
      using round_half_even_cases [of a] by auto
    moreover have "\<lfloor>b\<rfloor> \<le> round_half_even b"
      using round_half_even_cases [of b] by auto
    ultimately show ?thesis by linarith
  qed
qed

lemma two_powi_pos: "0 < (2::rat) powi k"
  by (simp add: power_int_def)

lemma two_powi_mono: "a \<le> b \<Longrightarrow> (2::rat) powi a \<le> 2 powi b"
  by (rule power_int_increasing) simp_all

lemma bitlen_lower: "0 < p \<Longrightarrow> (2::rat) powi (bitlen p - 1) \<le> of_int p"
proof -
  assume p: "0 < p"
  have lp: "0 < bitlen p"
    using p bitlen_eq_zero_iff [of p] bitlen_nonneg [of p] by auto
  have "2 ^ nat (bitlen p - 1) \<le> p" using bitlen_bounds [OF p] by simp
  then have "(of_int (2 ^ nat (bitlen p - 1)) :: rat) \<le> of_int p"
    by (simp only: of_int_le_iff)
  then show ?thesis using lp by (simp add: power_int_def)
qed

lemma bitlen_upper: "0 < p \<Longrightarrow> of_int p < (2::rat) powi (bitlen p)"
proof -
  assume p: "0 < p"
  have lp: "0 < bitlen p"
    using p bitlen_eq_zero_iff [of p] bitlen_nonneg [of p] by auto
  have "p < 2 ^ nat (bitlen p)" using bitlen_bounds [OF p] by simp
  then have "(of_int p :: rat) < of_int (2 ^ nat (bitlen p))"
    by (simp only: of_int_less_iff)
  then show ?thesis using lp by (simp add: power_int_def)
qed

lemma float_exponent_bounds:
  assumes "0 < x"
  shows "2 powi (float_exponent x) \<le> x" and "x < 2 powi (float_exponent x + 1)"
proof -
  obtain p q where pq: "quotient_of x = (p, q)" by (cases "quotient_of x")
  have q: "0 < q" using pq by (rule quotient_of_denom_pos)
  have x: "x = of_int p / of_int q" using pq by (rule quotient_of_div)
  have p: "0 < p" using assms q x by (simp add: zero_less_divide_iff)
  define d where "d = bitlen p - bitlen q"
  have qpos: "(0::rat) < of_int q" using q by simp
  have up: "x < 2 powi (d + 1)"
  proof -
    have "of_int p * (1::rat) < 2 powi (bitlen p) * 1"
      using bitlen_upper [OF p] by simp
    also have "\<dots> \<le> 2 powi (bitlen p) * (of_int q / 2 powi (bitlen q - 1))"
      using bitlen_lower [OF q] two_powi_pos [of "bitlen q - 1"] two_powi_pos [of "bitlen p"]
      by (simp add: pos_le_divide_eq)
    also have "\<dots> = 2 powi (d + 1) * of_int q"
      by (simp add: d_def power_int_diff power_int_add)
    finally show ?thesis using qpos by (simp add: x pos_divide_less_eq)
  qed
  have lo: "2 powi (d - 1) \<le> x"
  proof -
    have "2 powi (d - 1) * of_int q \<le> 2 powi (d - 1) * ((2::rat) powi (bitlen q))"
      using bitlen_upper [OF q] two_powi_pos [of "d - 1"] by simp
    also have "\<dots> = 2 powi (bitlen p - 1)"
      by (simp add: d_def power_int_diff power_int_add)
    also have "\<dots> \<le> of_int p" using p by (rule bitlen_lower)
    finally show ?thesis using qpos by (simp add: x pos_le_divide_eq)
  qed
  have e: "float_exponent x = (if 2 powi d \<le> x then d else d - 1)"
    by (simp add: float_exponent_def pq d_def Let_def)
  show "2 powi (float_exponent x) \<le> x" using lo by (simp add: e)
  show "x < 2 powi (float_exponent x + 1)" using up by (auto simp add: e not_le)
qed

lemma float_exponent_mono:
  assumes "0 < x" "x \<le> y"
  shows "float_exponent x \<le> float_exponent y"
proof (rule ccontr)
  assume "\<not> float_exponent x \<le> float_exponent y"
  then have "float_exponent y + 1 \<le> float_exponent x" by simp
  then have "(2::rat) powi (float_exponent y + 1) \<le> 2 powi (float_exponent x)"
    by (rule two_powi_mono)
  also have "\<dots> \<le> x" using assms(1) by (rule float_exponent_bounds)
  finally have "2 powi (float_exponent y + 1) \<le> y" using assms(2) by simp
  moreover have "y < 2 powi (float_exponent y + 1)"
    using assms by (intro float_exponent_bounds) simp
  ultimately show False by simp
qed

lemma round_binary64_pos:
  "0 < x \<Longrightarrow>
   round_binary64 x =
     of_int (round_half_even (x / 2 powi (float_exponent x - 52))) * 2 powi (float_exponent x - 52)"
  by (simp add: round_binary64_def Let_def)

lemma round_binary64_lower:
  assumes "0 < x"
  shows "2 powi (float_exponent x) \<le> round_binary64 x"
proof -
  let ?k = "float_exponent x - 52"
  have "(2::rat) powi 52 * 2 powi ?k \<le> x"
    using float_exponent_bounds(1) [OF assms] by (simp add: power_int_diff)
  then have "of_int (2 ^ 52) \<le> x / 2 powi ?k"
    using two_powi_pos [of ?k] by (simp add: pos_le_divide_eq)
  then have "round_half_even (of_int (2 ^ 52)) \<le> round_half_even (x / 2 powi ?k)"
    by (rule round_half_even_mono)
  then have "(2::int) ^ 52 \<le> round_half_even (x / 2 powi ?k)"
    by (simp only: round_half_even_of_int)
  then have "(of_int (2 ^ 52) :: rat) \<le> of_int (round_half_even (x / 2 powi ?k))"
    by (simp only: of_int_le_iff)
  then have "(of_int (2 ^ 52) :: rat) * 2 powi ?k \<le> round_binary64 x"
    using two_powi_pos [of ?k] by (simp add: round_binary64_pos [OF assms])
  then show ?thesis by (simp add: power_int_diff)
qed

lemma round_binary64_upper:
  assumes "0 < x"
  shows "round_binary64 x \<le> 2 powi (float_exponent x + 1)"
proof -
  let ?k = "float_exponent x - 52"
  have "x \<le> (2::rat) powi 53 * 2 powi ?k"
    using float_exponent_bounds(2) [OF assms] by (simp add: power_int_diff power_int_add)
  then have "x / 2 powi ?k \<le> of_int (2 ^ 53)"
    using two_powi_pos [of ?k] by (simp add: pos_divide_le_eq)
  then have "round_half_even (x / 2 powi ?k) \<le> round_half_even (of_int (2 ^ 53))"
    by (rule round_half_even_mono)
  then have "round_half_even (x / 2 powi ?k) \<le> (2::int) ^ 53"
    by (simp only: round_half_even_of_int)
  then have "(of_int (round_half_even (x / 2 powi ?k)) :: rat) \<le> of_int (2 ^ 53)"
    by (simp only: of_int_le_iff)
  then have "round_binary64 x \<le> (of_int (2 ^ 53) :: rat) * 2 powi ?k"
    using two_powi_pos [of ?k] by (simp add: round_binary64_pos [OF assms])
  then show ?thesis by (simp add: power_int_diff power_int_add)
qed

lemma round_binary64_nonneg: "0 \<le> x \<Longrightarrow> 0 \<le> round_binary64 x"
proof (cases "x = 0")
  case True
  then show ?thesis by (simp add: round_binary64_def)
next
  case False
  assume "0 \<le> x"
  with False have "0 < x" by simp
  then have "2 powi (float_exponent x) \<le> round_binary64 x" by (rule round_binary64_lower)
  then show ?thesis using two_powi_pos [of "float_exponent x"] by linarith
qed

text \<open>Rounding to nearest is monotone, within a binade and across binades.\<close>

lemma round_binary64_mono:
  assumes "0 \<le> x" "x \<le> y"
  shows "round_binary64 x \<le> round_binary64 y"
proof (cases "x = 0")
  case True
  then show ?thesis
    using assms round_binary64_nonneg [of y] by (simp add: round_binary64_def)
next
  case False
  then have x: "0 < x" and y: "0 < y" using assms by simp_all
  have e: "float_exponent x \<le> float_exponent y" using x assms(2) by (rule float_exponent_mono)
  show ?thesis
  proof (cases "float_exponent x = float_exponent y")
    case True
    let ?k = "float_exponent y - 52"
    have "x / 2 powi ?k \<le> y / 2 powi ?k"
      using assms(2) two_powi_pos [of ?k] by (intro divide_right_mono) simp_all
    then have "round_half_even (x / 2 powi ?k) \<le> round_half_even (y / 2 powi ?k)"
      by (rule round_half_even_mono)
    then have "(of_int (round_half_even (x / 2 powi ?k)) :: rat)
                 \<le> of_int (round_half_even (y / 2 powi ?k))"
      by (simp only: of_int_le_iff)
    then show ?thesis
      using two_powi_pos [of ?k]
      by (simp add: round_binary64_pos [OF x] round_binary64_pos [OF y] True)
  next
    case False
    with e have "float_exponent x + 1 \<le> float_exponent y" by simp
    then have "(2::rat) powi (float_exponent x + 1) \<le> 2 powi (float_exponent y)"
      by (rule two_powi_mono)
    with round_binary64_upper [OF x] round_binary64_lower [OF y] show ?thesis by linarith
  qed
qed

text \<open>
  The float comparison against a threshold of 70 or 90 percent agrees with the exact
  comparison of the counts, for every quotient whose denominator is at most \<open>2\<^sup>4\<^sup>9\<close>.
\<close>

lemma percent_threshold_iff:
  fixes u t k :: int
  assumes u: "0 \<le> u" and t: "0 < t" and tb: "t \<le> 2 ^ 49" and k: "0 < k"
    and at: "of_int (10 * k) \<le> round_binary64 (round_binary64 (of_int k / 10) * 100)"
    and below: "round_binary64 (round_binary64 (of_int k / 10 - 1 / (10 * 2 ^ 49)) * 100)
                  < of_int (10 * k)"
  shows "(of_int (10 * k) \<le> round_binary64 (round_binary64 (of_int u / of_int t) * 100))
         \<longleftrightarrow> (of_int (10 * k) \<le> (of_int u :: rat) / of_int t * 100)"
proof -
  define x :: rat where "x = of_int u / of_int t"
  define c :: rat where "c = of_int k / 10"
  define b :: rat where "b = c - 1 / (10 * 2 ^ 49)"
  have ck: "(of_int (10 * k) :: rat) = 100 * c" by (simp add: c_def)
  have tpos: "(0::rat) < of_int t" using t by simp
  have x0: "0 \<le> x" using u t by (simp add: x_def)
  have c0: "0 \<le> c" using k by (simp add: c_def)
  have at': "100 * c \<le> round_binary64 (round_binary64 c * 100)"
    using at by (simp only: ck c_def)
  have below': "round_binary64 (round_binary64 b * 100) < 100 * c"
    using below by (simp only: ck c_def b_def)
  have up: "100 * c \<le> round_binary64 (round_binary64 x * 100)" if "100 * c \<le> x * 100"
  proof -
    have cx: "c \<le> x" using that by linarith
    have "round_binary64 c \<le> round_binary64 x" using c0 cx by (rule round_binary64_mono)
    then have "round_binary64 c * 100 \<le> round_binary64 x * 100" by linarith
    moreover have "0 \<le> round_binary64 c * 100" using round_binary64_nonneg [OF c0] by linarith
    ultimately have "round_binary64 (round_binary64 c * 100)
                       \<le> round_binary64 (round_binary64 x * 100)"
      by (intro round_binary64_mono)
    with at' show ?thesis by linarith
  qed
  have down: "round_binary64 (round_binary64 x * 100) < 100 * c" if "x * 100 < 100 * c"
  proof -
    have "x < c" using that by linarith
    then have "of_int u < c * of_int t" using tpos by (simp add: x_def pos_divide_less_eq)
    then have "of_int u * 10 < (of_int k :: rat) * of_int t" by (simp add: c_def)
    then have "(of_int (u * 10) :: rat) < of_int (k * t)" by simp
    then have "u * 10 < k * t" by (simp only: of_int_less_iff)
    then have "10 * u + 1 \<le> k * t" by simp
    then have "(of_int (10 * u + 1) :: rat) \<le> of_int (k * t)" by (simp only: of_int_le_iff)
    then have "(of_int u :: rat) * 10 + 1 \<le> of_int k * of_int t" by simp
    then have "x \<le> c - 1 / (10 * of_int t)"
      using tpos by (simp add: x_def c_def field_simps)
    moreover have "1 / (10 * 2 ^ 49) \<le> (1::rat) / (10 * of_int t)"
    proof -
      have "(of_int t :: rat) \<le> of_int (2 ^ 49)" using tb by (simp only: of_int_le_iff)
      then show ?thesis using tpos by (simp add: field_simps)
    qed
    ultimately have xb: "x \<le> b" unfolding b_def by linarith
    have "round_binary64 x \<le> round_binary64 b" using x0 xb by (rule round_binary64_mono)
    then have "round_binary64 x * 100 \<le> round_binary64 b * 100" by linarith
    moreover have "0 \<le> round_binary64 x * 100" using round_binary64_nonneg [OF x0] by linarith
    ultimately have "round_binary64 (round_binary64 x * 100)
                       \<le> round_binary64 (round_binary64 b * 100)"
      by (intro round_binary64_mono)
    with below' show ?thesis by linarith
  qed
  have "(100 * c \<le> round_binary64 (round_binary64 x * 100)) \<longleftrightarrow> (100 * c \<le> x * 100)"
    using up down by (meson not_le)
  then show ?thesis by (simp only: ck x_def)
qed

lemma at_70: "of_int (10 * 7) \<le> round_binary64 (round_binary64 (of_int 7 / 10) * 100)"
  by code_simp

lemma below_70:
  "round_binary64 (round_binary64 (of_int 7 / 10 - 1 / (10 * 2 ^ 49)) * 100) < of_int (10 * 7)"
  by code_simp

lemma at_90: "of_int (10 * 9) \<le> round_binary64 (round_binary64 (of_int 9 / 10) * 100)"
  by code_simp

lemma below_90:
  "round_binary64 (round_binary64 (of_int 9 / 10 - 1 / (10 * 2 ^ 49)) * 100) < of_int (10 * 9)"
  by code_simp

lemma percent_ge_70_iff:
  fixes u t :: int
  assumes "0 \<le> u" "0 < t" "t \<le> 2 ^ 49"
  shows "(70 \<le> round_binary64 (round_binary64 (of_int u / of_int t) * 100))
         \<longleftrightarrow> (70 \<le> (of_int u :: rat) / of_int t * 100)"
  using percent_threshold_iff [OF assms, of 7, OF _ at_70 below_70] by simp

lemma percent_ge_90_iff:
  fixes u t :: int
  assumes "0 \<le> u" "0 < t" "t \<le> 2 ^ 49"
  shows "(90 \<le> round_binary64 (round_binary64 (of_int u / of_int t) * 100))
         \<longleftrightarrow> (90 \<le> (of_int u :: rat) / of_int t * 100)"
  using percent_threshold_iff [OF assms, of 9, OF _ at_90 below_90] by simp



section \<open>The mappers of the two modules of table classes\<close>

text \<open>
  The table classes of the app do not configure: two foreign keys link the incident and
  the degradation-event tables and the relationships between them name neither. The
  classes of Backend/models.py configure.
\<close>

lemma app_models_ambiguous: "configure_mappers app_models = Some AmbiguousForeignKeysError"
  by code_simp

lemma backend_models_configure: "configure_mappers backend_models = None"
  by code_simp

lemma session_exec_app [simp]: "session_exec app_models rows = Inl AmbiguousForeignKeysError"
  by (simp add: session_exec_def app_models_ambiguous)

lemma session_exec_backend [simp]: "session_exec backend_models rows = Inr rows"
  by (simp add: session_exec_def backend_models_configure)

text \<open>
  So, as committed, the three functions of app/services/degradation\_functions.py that
  the claims cite raise at their first query, on every input, and write nothing.
\<close>

lemma analyze_health_data_raises_as_committed:
  "analyze_health_data cfg now service_id db = Inl AmbiguousForeignKeysError"
  by (simp add: analyze_health_data_def)

lemma handle_degradation_and_incidents_raises_as_committed:
  "handle_degradation_and_incidents cfg commit_ok now service_id is_degraded auto_triggered db
     = (Inl AmbiguousForeignKeysError, db)"
  by (simp add: handle_degradation_and_incidents_def)

lemma update_incident_raises_as_committed:
  "update_incident commit_ok now i update_data db = (Inl AmbiguousForeignKeysError, db)"
  by (simp add: update_incident_def)


section \<open>Properties of the analyzer\<close>

lemma count_unhealthy_nonneg: "0 \<le> count_unhealthy hs"
  by (simp add: count_unhealthy_def)

lemma count_unhealthy_le: "count_unhealthy hs \<le> int (length hs)"
  by (simp add: count_unhealthy_def)

lemma ds_analyze_health_data_nonempty:
  assumes svc: "get_service db service_id = Some service"
    and ws: "window_start now w = Inr start_time"
    and q: "query_health_records db service_id start_time now = hs"
    and ne: "hs \<noteq> []"
  shows "ds_analyze_health_data now service_id w db =
     Inr \<lparr>a_failure_rate =
            round_binary64 (round_binary64 (of_int (count_unhealthy hs) / of_int (int (length hs))) * 100),
          a_is_degraded =
            (70 \<le> round_binary64 (round_binary64 (of_int (count_unhealthy hs) / of_int (int (length hs))) * 100)
             \<or> (0 < count_unhealthy hs \<and>
                 90 \<le> round_binary64 (round_binary64
                     (of_int (count_unhealthy (drop (length hs div 2) hs))
                        / of_int (count_unhealthy hs)) * 100))),
          a_recent_concentrated_failures =
            (0 < count_unhealthy hs \<and>
                 90 \<le> round_binary64 (round_binary64
                     (of_int (count_unhealthy (drop (length hs div 2) hs))
                        / of_int (count_unhealthy hs)) * 100)),
          a_total_records = int (length hs),
          a_unhealthy_records = count_unhealthy hs\<rparr>"
proof -
  have m: "nat (int (length hs) div 2) = length hs div 2" by (simp add: nat_div_distrib)
  show ?thesis
    using ne
    by (simp add: ds_analyze_health_data_def svc ws q Let_def py_truediv_def py_fmul_def m)
qed

lemma round_binary64_1: "round_binary64 1 = 1" by code_simp
lemma round_binary64_100: "round_binary64 100 = 100" by code_simp

lemma healthy_filter_empty:
  "\<forall>x \<in> set xs. is_health x \<Longrightarrow> filter (\<lambda>r. \<not> is_health r) xs = []"
  by (induction xs) auto

lemma count_unhealthy_single:
  assumes i: "i < length hs" and bad: "\<not> is_health (hs ! i)"
    and others: "\<forall>j < length hs. j \<noteq> i \<longrightarrow> is_health (hs ! j)"
    and m: "m \<le> i"
  shows "count_unhealthy (drop m hs) = 1"
proof -
  have split: "hs = take i hs @ hs ! i # drop (Suc i) hs"
    using i by (rule id_take_nth_drop)
  have before: "\<forall>x \<in> set (take i hs). is_health x"
  proof
    fix x assume "x \<in> set (take i hs)"
    then obtain j where "j < length (take i hs)" "x = take i hs ! j"
      by (auto simp: in_set_conv_nth)
    then show "is_health x" using i others by auto
  qed
  have after: "\<forall>x \<in> set (drop (Suc i) hs). is_health x"
  proof
    fix x assume "x \<in> set (drop (Suc i) hs)"
    then obtain j where "j < length (drop (Suc i) hs)" "x = drop (Suc i) hs ! j"
      by (auto simp: in_set_conv_nth)
    then show "is_health x" using i others by auto
  qed
  have before': "\<forall>x \<in> set (drop m (take i hs)). is_health x"
    using before by (meson in_set_dropD)
  have "drop m hs = drop m (take i hs) @ hs ! i # drop (Suc i) hs"
  proof -
    have "drop m hs = drop m (take i hs @ hs ! i # drop (Suc i) hs)" using split by simp
    also have "\<dots> = drop m (take i hs) @ hs ! i # drop (Suc i) hs"
      using m i by simp
    finally show ?thesis .
  qed
  then have "filter (\<lambda>r. \<not> is_health r) (drop m hs) = [hs ! i]"
    using healthy_filter_empty [OF before'] healthy_filter_empty [OF after] bad by simp
  then show ?thesis by (simp add: count_unhealthy_def)
qed


section \<open>Properties of the correlator\<close>

lemma ds_handle_not_degraded:
  "ds_handle_degradation_and_incidents format_2f commit_ok now service_id failure_rate False
       time_window_minutes auto_triggered db =
     (case get_service db service_id of
        None \<Rightarrow> (Inl (Service_not_found service_id), db)
      | Some service \<Rightarrow> (Inr (ds_not_degraded_result format_2f service failure_rate), db))"
  by (simp add: ds_handle_degradation_and_incidents_def split: option.split)

lemma ds_handle_existing:
  assumes "get_service db service_id = Some service"
    and "ds_find_open_incident db service_id = Some existing"
    and "commit_ok Event_insert"
  shows "ds_handle_degradation_and_incidents format_2f commit_ok now service_id failure_rate True
           time_window_minutes auto_triggered db =
     (Inr (ds_existing_incident_result format_2f service failure_rate
             (ds_new_degradation_event now service_id failure_rate time_window_minutes
                auto_triggered (Some existing) db) existing),
      insert_event
        (ds_new_degradation_event now service_id failure_rate time_window_minutes
           auto_triggered (Some existing) db) db)"
  using assms by (simp add: ds_handle_degradation_and_incidents_def Let_def)

lemma ds_find_open_incident_insert_event [simp]:
  "ds_find_open_incident (insert_event e db) service_id = ds_find_open_incident db service_id"
  by (simp add: ds_find_open_incident_def insert_event_def)

lemma get_service_insert_event [simp]:
  "get_service (insert_event e db) service_id = get_service db service_id"
  by (simp add: get_service_def insert_event_def)

lemma run_call_eq_handle:
  "run_call format_2f c db =
     (case ds_handle_degradation_and_incidents format_2f all_commits_ok (c_now c)
             (c_service_id c) (c_failure_rate c) (c_is_degraded c) (c_time_window_minutes c)
             (c_auto_triggered c) db of
        (Inl e, d) \<Rightarrow> (Raised e, d)
      | (Inr r, d) \<Rightarrow> (Returned r, d))"
  by (simp add: run_call_def eval_nat_numeral ds_handle_degradation_and_incidents_def
        all_commits_ok_def Let_def split: option.split)

lemma ds_open_incidents_insert_event [simp]:
  "ds_open_incidents (insert_event e db) s = ds_open_incidents db s"
  by (simp add: ds_open_incidents_def insert_event_def)

lemma ds_open_incidents_backfill_event [simp]:
  "ds_open_incidents (ds_backfill_event a b db) s = ds_open_incidents db s"
  by (simp add: ds_open_incidents_def ds_backfill_event_def)

lemma no_open_incident_iff:
  "ds_find_open_incident db s = None \<longleftrightarrow> ds_open_incidents db s = []"
  by (auto simp add: ds_find_open_incident_def ds_open_incidents_def find_None_iff
        filter_empty_conv)

lemma ds_open_incidents_insert_new:
  "ds_open_incidents (insert_incident (ds_new_incident format_2f now service_id rate d) db) s =
     ds_open_incidents db s
       @ (if s = service_id then [ds_new_incident format_2f now service_id rate d] else [])"
  by (auto simp add: ds_open_incidents_def insert_incident_def ds_is_open_for_def
        ds_new_incident_def)

lemma handle_keeps_one_open_incident:
  assumes "length (ds_open_incidents db s) \<le> 1"
  shows "length (ds_open_incidents
           (snd (ds_handle_degradation_and_incidents format_2f commit_ok now service_id rate
                   is_degraded window auto_triggered db)) s) \<le> 1"
proof (cases "ds_find_open_incident db service_id")
  case None
  then have "ds_open_incidents db service_id = []" by (simp add: no_open_incident_iff)
  then show ?thesis
    using assms None
    by (auto simp add: ds_handle_degradation_and_incidents_def Let_def
          ds_open_incidents_insert_new split: option.split)
next
  case (Some existing)
  then show ?thesis
    using assms
    by (auto simp add: ds_handle_degradation_and_incidents_def Let_def split: option.split)
qed

lemma run_call_keeps_one_open_incident:
  assumes "length (ds_open_incidents db s) \<le> 1"
  shows "length (ds_open_incidents (snd (run_call format_2f c db)) s) \<le> 1"
proof -
  have "snd (run_call format_2f c db) =
          snd (ds_handle_degradation_and_incidents format_2f all_commits_ok (c_now c)
                 (c_service_id c) (c_failure_rate c) (c_is_degraded c)
                 (c_time_window_minutes c) (c_auto_triggered c) db)"
    by (simp add: run_call_eq_handle split: prod.split sum.split)
  then show ?thesis using handle_keeps_one_open_incident [OF assms] by simp
qed

lemma interleave_first_alone:
  "interleave format_2f c1 c2 (replicate n True @ schedule) (s1, s2, db) =
     interleave format_2f c1 c2 schedule
       (fst (((\<lambda>(s, d). call_step format_2f c1 s d) ^^ n) (s1, db)), s2,
        snd (((\<lambda>(s, d). call_step format_2f c1 s d) ^^ n) (s1, db)))"
proof (induction n arbitrary: s1 db)
  case 0
  then show ?case by simp
next
  case (Suc n)
  show ?case
    by (simp add: Suc.IH funpow_swap1 split: prod.split del: funpow.simps add: funpow_Suc_right)
qed

lemma interleave_second_alone:
  "interleave format_2f c1 c2 (replicate n False @ schedule) (s1, s2, db) =
     interleave format_2f c1 c2 schedule
       (s1, fst (((\<lambda>(s, d). call_step format_2f c2 s d) ^^ n) (s2, db)),
        snd (((\<lambda>(s, d). call_step format_2f c2 s d) ^^ n) (s2, db)))"
proof (induction n arbitrary: s2 db)
  case 0
  then show ?case by simp
next
  case (Suc n)
  show ?case
    by (simp add: Suc.IH funpow_swap1 split: prod.split del: funpow.simps add: funpow_Suc_right)
qed

lemma run_call_finished:
  "(\<exists>r. fst (run_call format_2f c db) = Returned r)
   \<or> (\<exists>e. fst (run_call format_2f c db) = Raised e)"
  by (simp add: run_call_eq_handle split: prod.split sum.split)

lemma steps_after_finished:
  "(\<exists>r. s = Returned r) \<or> (\<exists>e. s = Raised e) \<Longrightarrow>
   ((\<lambda>(s, d). call_step format_2f c s d) ^^ k) (s, db) = (s, db)"
  by (induction k) auto

lemma steps_at_least_five:
  assumes "5 \<le> n"
  shows "((\<lambda>(s, d). call_step format_2f c s d) ^^ n) (At_start, db) = run_call format_2f c db"
proof -
  obtain k where n: "n = k + 5" using assms by (metis add.commute le_Suc_ex)
  have "((\<lambda>(s, d). call_step format_2f c s d) ^^ n) (At_start, db)
          = ((\<lambda>(s, d). call_step format_2f c s d) ^^ k) (run_call format_2f c db)"
    unfolding n funpow_add by (simp add: run_call_def)
  also have "\<dots> = ((\<lambda>(s, d). call_step format_2f c s d) ^^ k)
                     (fst (run_call format_2f c db), snd (run_call format_2f c db))"
    by simp
  also have "\<dots> = (fst (run_call format_2f c db), snd (run_call format_2f c db))"
    using run_call_finished by (rule steps_after_finished)
  finally show ?thesis by simp
qed

lemma interleave_serial:
  assumes "5 \<le> m" "5 \<le> n"
  shows "interleave format_2f c1 c2 (replicate m True @ replicate n False)
           (At_start, At_start, db) =
     (fst (run_call format_2f c1 db),
      fst (run_call format_2f c2 (snd (run_call format_2f c1 db))),
      snd (run_call format_2f c2 (snd (run_call format_2f c1 db))))"
  using interleave_second_alone [of format_2f c1 c2 n "[]"]
  by (simp add: interleave_first_alone steps_at_least_five [OF assms(1)]
        steps_at_least_five [OF assms(2)])

lemma fold_max_ge: "(a::int) \<le> fold max xs a"
  by (induction xs arbitrary: a) (auto intro: order_trans [OF max.cobounded2])

lemma fold_max_member: "x \<in> set xs \<Longrightarrow> (x::int) \<le> fold max xs a"
proof (induction xs arbitrary: a)
  case Nil
  then show ?case by simp
next
  case (Cons y ys)
  show ?case
  proof (cases "x = y")
    case True
    have "y \<le> max y a" by simp
    also have "\<dots> \<le> fold max ys (max y a)" by (rule fold_max_ge)
    finally show ?thesis using True by simp
  next
    case False
    then show ?thesis using Cons by simp
  qed
qed

lemma next_id_fresh: "x \<in> set ids \<Longrightarrow> x < next_id ids"
  using fold_max_member [of x ids 0] by (simp add: next_id_def)

lemma backfill_new_event:
  "dse_id e = next_id (map dse_id (degradation_events db)) \<Longrightarrow>
   degradation_events (ds_backfill_event (dse_id e) k (insert_incident i (insert_event e db)))
     = degradation_events db @ [e\<lparr>dse_incident_id := Some k\<rparr>]"
proof -
  assume id: "dse_id e = next_id (map dse_id (degradation_events db))"
  have "\<forall>x \<in> set (degradation_events db). dse_id x \<noteq> dse_id e"
  proof
    fix x assume "x \<in> set (degradation_events db)"
    then have "dse_id x \<in> set (map dse_id (degradation_events db))" by simp
    then have "dse_id x < next_id (map dse_id (degradation_events db))" by (rule next_id_fresh)
    then show "dse_id x \<noteq> dse_id e" using id by simp
  qed
  then have "map (\<lambda>x. if dse_id x = dse_id e then x\<lparr>dse_incident_id := Some k\<rparr> else x)
               (degradation_events db) = degradation_events db"
    by (simp add: map_idI)
  then show ?thesis by (simp add: ds_backfill_event_def insert_incident_def insert_event_def)
qed

lemma ds_handle_opens_incident:
  assumes svc: "get_service db service_id = Some service"
    and none: "ds_find_open_incident db service_id = None"
  shows "\<exists>e i r.
      ds_handle_degradation_and_incidents format_2f all_commits_ok now service_id failure_rate
          True time_window_minutes auto_triggered db
        = (Inr r,
           db\<lparr>degradation_events := degradation_events db @ [e],
              incidents := incidents db @ [i]\<rparr>)
    \<and> r_incident_id r = Some (ds_inc_id i) \<and> r_degradation_event_id r = Some (dse_id e)
    \<and> dse_service_id e = service_id \<and> dse_incident_id e = Some (ds_inc_id i)
    \<and> ds_inc_service_id i = service_id \<and> ds_status i = OPEN"
proof -
  define e where
    "e = ds_new_degradation_event now service_id failure_rate time_window_minutes
           auto_triggered None db"
  define i where
    "i = ds_new_incident format_2f now service_id failure_rate (insert_event e db)"
  define e' where "e' = e\<lparr>dse_incident_id := Some (ds_inc_id i)\<rparr>"
  define r where "r = ds_new_incident_result format_2f service failure_rate e i"
  have id: "dse_id e = next_id (map dse_id (degradation_events db))"
    by (simp add: e_def ds_new_degradation_event_def)
  have run: "ds_handle_degradation_and_incidents format_2f all_commits_ok now service_id
               failure_rate True time_window_minutes auto_triggered db
        = (Inr r, ds_backfill_event (dse_id e) (ds_inc_id i)
                    (insert_incident i (insert_event e db)))"
    using svc none
    by (simp add: ds_handle_degradation_and_incidents_def Let_def all_commits_ok_def e_def
          i_def r_def)
  have st: "ds_backfill_event (dse_id e) (ds_inc_id i) (insert_incident i (insert_event e db))
          = db\<lparr>degradation_events := degradation_events db @ [e'],
               incidents := incidents db @ [i]\<rparr>"
  proof -
    have "degradation_events
            (ds_backfill_event (dse_id e) (ds_inc_id i) (insert_incident i (insert_event e db)))
          = degradation_events db @ [e']"
      unfolding e'_def using id by (rule backfill_new_event)
    then show ?thesis
      by (simp add: ds_backfill_event_def insert_incident_def insert_event_def)
  qed
  have pr: "r_incident_id r = Some (ds_inc_id i) \<and> r_degradation_event_id r = Some (dse_id e')"
    by (simp add: r_def ds_new_incident_result_def e'_def)
  have pe: "dse_service_id e' = service_id \<and> dse_incident_id e' = Some (ds_inc_id i)"
    by (simp add: e'_def e_def ds_new_degradation_event_def)
  have pi: "ds_inc_service_id i = service_id \<and> ds_status i = OPEN"
    by (simp add: i_def ds_new_incident_def)
  show ?thesis using run st pr pe pi by (intro exI [of _ e'] exI [of _ i] exI [of _ r]) simp
qed

lemma find_append_first:
  "\<forall>x \<in> set xs. \<not> P x \<Longrightarrow> P y \<Longrightarrow> find P (xs @ [y]) = Some y"
  by (induction xs) auto

lemma ds_find_open_incident_after_open:
  assumes "ds_find_open_incident db service_id = None"
    and "ds_inc_service_id i = service_id" and "ds_status i = OPEN"
  shows "ds_find_open_incident
           (db\<lparr>degradation_events := es, incidents := incidents db @ [i]\<rparr>) service_id = Some i"
proof -
  have "\<forall>x \<in> set (incidents db). \<not> ds_is_open_for service_id x"
    using assms(1) by (auto simp add: ds_find_open_incident_def find_None_iff)
  then have "find (ds_is_open_for service_id) (incidents db @ [i]) = Some i"
    using assms(2,3) by (intro find_append_first) (simp_all add: ds_is_open_for_def)
  then show ?thesis by (simp add: ds_find_open_incident_def)
qed



section \<open>The analyzer's verdict\<close>

text \<open>
  The claims about the analyzer are settled on \<open>ds_analyze_health_data\<close>, the analyzer
  of the DegradationService, for a window whose start \<^verbatim>\<open>end_time - timedelta(...)\<close> is a
  \<^verbatim>\<open>datetime\<close>. The copy in the app has the same statements after its first query, which
  as committed raises (\<open>analyze_health_data_raises_as_committed\<close>).
\<close>

text \<open>
  Claim C1. For every non-empty list of in-window observations of an existing service,
  ordered ascending by timestamp, the analyzer returns degraded iff Condition A or
  Condition B holds, where A is \<open>unhealthyCount / totalCount * 100 \<ge> 70\<close> (inclusive at
  exactly 70 percent) and B is \<open>unhealthyCount > 0\<close> and
  \<open>recentUnhealthy / unhealthyCount * 100 \<ge> 90\<close>, the recent half being the list from
  index \<open>totalCount div 2\<close> on. The code decides in binary64 floats and the conditions
  are stated in exact arithmetic; they agree for every window of at most \<open>2\<^sup>4\<^sup>9\<close>
  observations.
\<close>

theorem analyze_degraded_iff_conditions:
  assumes svc: "get_service db service_id = Some service"
    and ws: "window_start now w = Inr start_time"
    and q: "query_health_records db service_id start_time now = hs"
    and ne: "hs \<noteq> []" and len: "length hs \<le> 2 ^ 49"
  shows "\<exists>a. ds_analyze_health_data now service_id w db = Inr a
            \<and> a_is_degraded a = (spec_condition_A hs \<or> spec_condition_B hs)
            \<and> a_recent_concentrated_failures a = spec_condition_B hs"
proof -
  let ?u = "count_unhealthy hs"
  let ?r = "count_unhealthy (drop (length hs div 2) hs)"
  have t0: "0 < int (length hs)" using ne by simp
  have tb: "int (length hs) \<le> 2 ^ 49"
  proof -
    have "int (length hs) \<le> int (2 ^ 49)" using len by (simp only: of_nat_le_iff)
    then show ?thesis by simp
  qed
  have u0: "0 \<le> ?u" by (rule count_unhealthy_nonneg)
  have ub: "?u \<le> 2 ^ 49" using count_unhealthy_le [of hs] tb by linarith
  have r0: "0 \<le> ?r" by (rule count_unhealthy_nonneg)
  have A: "(70 \<le> round_binary64 (round_binary64 (of_int ?u / of_int (int (length hs))) * 100))
             = spec_condition_A hs"
    using percent_ge_70_iff [OF u0 t0 tb] by (simp add: spec_condition_A_def)
  have B: "(0 < ?u \<and> 90 \<le> round_binary64 (round_binary64 (of_int ?r / of_int ?u) * 100))
             = spec_condition_B hs"
  proof (cases "0 < ?u")
    case True
    then show ?thesis
      using percent_ge_90_iff [OF r0 True ub] by (simp add: spec_condition_B_def)
  next
    case False
    then show ?thesis by (simp add: spec_condition_B_def)
  qed
  show ?thesis
    unfolding ds_analyze_health_data_nonempty [OF svc ws q ne] A B by simp
qed

text \<open>
  A window of ten observations of which exactly seven are unhealthy (stored out of
  timestamp order): Condition A holds at its boundary and the verdict is degraded.
\<close>

theorem analyze_degraded_iff_conditions_witness:
  "get_service (example_db rows_seventy_percent) 1 = Some example_service
   \<and> window_start (minutes 120) 60 = Inr (minutes 60)
   \<and> query_health_records (example_db rows_seventy_percent) 1 (minutes 60) (minutes 120)
       = window_seventy_percent
   \<and> window_seventy_percent \<noteq> [] \<and> length window_seventy_percent \<le> 2 ^ 49
   \<and> spec_condition_A window_seventy_percent
   \<and> (\<exists>a. ds_analyze_health_data (minutes 120) 1 60 (example_db rows_seventy_percent) = Inr a
          \<and> a_is_degraded a)"
proof -
  have s: "get_service (example_db rows_seventy_percent) 1 = Some example_service"
    by code_simp
  have w: "window_start (minutes 120) 60 = Inr (minutes 60)" by code_simp
  have q: "query_health_records (example_db rows_seventy_percent) 1 (minutes 60) (minutes 120)
             = window_seventy_percent"
    by code_simp
  have n: "window_seventy_percent \<noteq> []" by (simp add: window_seventy_percent_def)
  have l: "length window_seventy_percent \<le> 2 ^ 49" by (simp add: window_seventy_percent_def)
  have a: "spec_condition_A window_seventy_percent" by code_simp
  have "\<exists>a. ds_analyze_health_data (minutes 120) 1 60 (example_db rows_seventy_percent) = Inr a
          \<and> a_is_degraded a"
    using analyze_degraded_iff_conditions [OF s w q n l] a by auto
  then show ?thesis using s w q n l a by (intro conjI)
qed

text \<open>
  Claim C7. For a window that holds exactly one observation, which is unhealthy
  (\<open>totalCount = 1\<close>, \<open>unhealthyCount = 1\<close>), the analyzer returns degraded: the failure
  rate is 100 percent.
\<close>

theorem single_unhealthy_observation_degraded:
  assumes svc: "get_service db service_id = Some service"
    and ws: "window_start now w = Inr start_time"
    and q: "query_health_records db service_id start_time now = [h]"
    and bad: "\<not> is_health h"
  shows "\<exists>a. ds_analyze_health_data now service_id w db = Inr a
            \<and> a_is_degraded a \<and> a_failure_rate a = 100
            \<and> a_total_records a = 1 \<and> a_unhealthy_records a = 1"
proof -
  have ne: "[h] \<noteq> []" by simp
  have c: "count_unhealthy [h] = 1" using bad by (simp add: count_unhealthy_def)
  show ?thesis
    by (simp add: ds_analyze_health_data_nonempty [OF svc ws q ne] c round_binary64_1
          round_binary64_100)
qed

theorem single_unhealthy_observation_degraded_witness:
  "get_service (example_db rows_single) 1 = Some example_service
   \<and> window_start (minutes 120) 60 = Inr (minutes 60)
   \<and> query_health_records (example_db rows_single) 1 (minutes 60) (minutes 120)
       = [probe 3 1 100 0]
   \<and> is_health (probe 3 1 100 0) = False
   \<and> (\<exists>a. ds_analyze_health_data (minutes 120) 1 60 (example_db rows_single) = Inr a
          \<and> a_is_degraded a \<and> a_failure_rate a = 100
          \<and> a_total_records a = 1 \<and> a_unhealthy_records a = 1)"
proof -
  have s: "get_service (example_db rows_single) 1 = Some example_service"
    by code_simp
  have w: "window_start (minutes 120) 60 = Inr (minutes 60)" by code_simp
  have q: "query_health_records (example_db rows_single) 1 (minutes 60) (minutes 120)
             = [probe 3 1 100 0]"
    by code_simp
  have b: "\<not> is_health (probe 3 1 100 0)" by code_simp
  have b': "is_health (probe 3 1 100 0) = False" using b by simp
  show ?thesis using s w q b' single_unhealthy_observation_degraded [OF s w q b] by (intro conjI)
qed

text \<open>
  Claim C8. For every service whose set of in-window observations is empty
  (\<open>totalCount = 0\<close>), the analyzer returns not-degraded: the absence of data is a neutral
  verdict, not an error.
\<close>

theorem empty_window_not_degraded:
  assumes "get_service db service_id = Some service"
    and "window_start now w = Inr start_time"
    and "query_health_records db service_id start_time now = []"
  shows "ds_analyze_health_data now service_id w db =
           Inr \<lparr>a_failure_rate = 0, a_is_degraded = False,
                a_recent_concentrated_failures = False,
                a_total_records = 0, a_unhealthy_records = 0\<rparr>"
  using assms by (simp add: ds_analyze_health_data_def)

theorem empty_window_not_degraded_witness:
  "get_service (example_db rows_out_of_window) 1 = Some example_service
   \<and> window_start (minutes 120) 60 = Inr (minutes 60)
   \<and> query_health_records (example_db rows_out_of_window) 1 (minutes 60) (minutes 120) = []
   \<and> ds_analyze_health_data (minutes 120) 1 60 (example_db rows_out_of_window) =
        Inr \<lparr>a_failure_rate = 0, a_is_degraded = False,
             a_recent_concentrated_failures = False,
             a_total_records = 0, a_unhealthy_records = 0\<rparr>"
proof -
  have s: "get_service (example_db rows_out_of_window) 1 = Some example_service"
    by code_simp
  have w: "window_start (minutes 120) 60 = Inr (minutes 60)" by code_simp
  have q: "query_health_records (example_db rows_out_of_window) 1 (minutes 60) (minutes 120)
             = []"
    by code_simp
  show ?thesis using s w q empty_window_not_degraded [OF s w q] by (intro conjI)
qed

text \<open>
  A window that \<^verbatim>\<open>datetime\<close> cannot hold is outside the three claims above: the
  subtraction raises before the observations are read.
\<close>

lemma ds_analyze_window_out_of_range:
  "ds_analyze_health_data (minutes 120) 1 2000000000 (example_db rows_single) = Inl OverflowError"
  by code_simp

text \<open>
  Claim C9. For every non-empty window in which exactly one observation is unhealthy and
  that observation lies in the second half of the timestamp-ordered list
  (index \<open>\<ge> totalCount div 2\<close>), the analyzer returns degraded through the concentration
  condition, however many healthy observations the window holds.
\<close>

theorem one_recent_failure_degraded:
  assumes svc: "get_service db service_id = Some service"
    and ws: "window_start now w = Inr start_time"
    and q: "query_health_records db service_id start_time now = hs"
    and i: "i < length hs" and half: "length hs div 2 \<le> i"
    and bad: "\<not> is_health (hs ! i)"
    and others: "\<forall>j < length hs. j \<noteq> i \<longrightarrow> is_health (hs ! j)"
  shows "\<exists>a. ds_analyze_health_data now service_id w db = Inr a
            \<and> a_is_degraded a \<and> a_recent_concentrated_failures a"
proof -
  have ne: "hs \<noteq> []" using i by auto
  have all: "count_unhealthy hs = 1"
    using count_unhealthy_single [OF i bad others, of 0] by simp
  have recent: "count_unhealthy (drop (length hs div 2) hs) = 1"
    using count_unhealthy_single [OF i bad others half] .
  show ?thesis
    by (simp add: ds_analyze_health_data_nonempty [OF svc ws q ne] all recent round_binary64_1
          round_binary64_100)
qed

text \<open>
  Three healthy observations and one later failure, stored first: the failure is at
  index 3 of the ordered window, in its second half.
\<close>

theorem one_recent_failure_degraded_witness:
  "get_service (example_db rows_one_recent) 1 = Some example_service
   \<and> window_start (minutes 120) 60 = Inr (minutes 60)
   \<and> query_health_records (example_db rows_one_recent) 1 (minutes 60) (minutes 120)
       = window_one_recent
   \<and> 3 < length window_one_recent \<and> length window_one_recent div 2 \<le> 3
   \<and> map is_health window_one_recent = [True, True, True, False]
   \<and> (\<exists>a. ds_analyze_health_data (minutes 120) 1 60 (example_db rows_one_recent) = Inr a
          \<and> a_is_degraded a \<and> a_recent_concentrated_failures a)"
proof -
  have s: "get_service (example_db rows_one_recent) 1 = Some example_service"
    by code_simp
  have w: "window_start (minutes 120) 60 = Inr (minutes 60)" by code_simp
  have q: "query_health_records (example_db rows_one_recent) 1 (minutes 60) (minutes 120)
             = window_one_recent"
    by code_simp
  have i: "3 < length window_one_recent" by (simp add: window_one_recent_def)
  have h: "length window_one_recent div 2 \<le> 3" by (simp add: window_one_recent_def)
  have b: "\<not> is_health (window_one_recent ! 3)"
    by (simp add: window_one_recent_def probe_def)
  have o: "\<forall>j < length window_one_recent. j \<noteq> 3 \<longrightarrow> is_health (window_one_recent ! j)"
    by (simp add: window_one_recent_def probe_def less_Suc_eq numeral_eq_Suc)
  have m: "map is_health window_one_recent = [True, True, True, False]"
    by (simp add: window_one_recent_def probe_def)
  show ?thesis using s w q i h m one_recent_failure_degraded [OF s w q i h b o] by (intro conjI)
qed


section \<open>The correlator's effect on the store\<close>

text \<open>
  The claims about the correlator are settled on \<open>ds_handle_degradation_and_incidents\<close>,
  the correlator of the DegradationService. The copy in the app has the same sequence
  of statements, and as committed raises at its first query
  (\<open>handle_degradation_and_incidents_raises_as_committed\<close>).
\<close>

text \<open>
  Claim C2. For every service that has an incident in status OPEN or ACKNOWLEDGED, a
  degraded call whose commit succeeds creates a degradation event that references the
  incident the query finds, returns that incident's id and creates no incident; two
  successive degraded calls for the service leave the incidents as they were and add two
  degradation events, both referencing that incident.
\<close>

theorem degraded_call_joins_open_incident:
  assumes svc: "get_service db service_id = Some service"
    and oi: "ds_find_open_incident db service_id = Some existing"
    and ok1: "commit_ok1 Event_insert" and ok2: "commit_ok2 Event_insert"
  shows "\<exists>e1 e2 r1 r2 db1 db2.
      ds_handle_degradation_and_incidents format_2f commit_ok1 now1 service_id rate1 True
          window1 auto1 db = (Inr r1, db1)
    \<and> ds_handle_degradation_and_incidents format_2f commit_ok2 now2 service_id rate2 True
          window2 auto2 db1 = (Inr r2, db2)
    \<and> r_incident_id r1 = Some (ds_inc_id existing)
    \<and> r_incident_id r2 = Some (ds_inc_id existing)
    \<and> r_degradation_event_id r1 = Some (dse_id e1)
    \<and> r_degradation_event_id r2 = Some (dse_id e2)
    \<and> incidents db1 = incidents db
    \<and> degradation_events db1 = degradation_events db @ [e1]
    \<and> incidents db2 = incidents db
    \<and> degradation_events db2 = degradation_events db @ [e1, e2]
    \<and> dse_service_id e1 = service_id \<and> dse_incident_id e1 = Some (ds_inc_id existing)
    \<and> dse_service_id e2 = service_id \<and> dse_incident_id e2 = Some (ds_inc_id existing)"
proof -
  define e1 where
    "e1 = ds_new_degradation_event now1 service_id rate1 window1 auto1 (Some existing) db"
  define db1 where "db1 = insert_event e1 db"
  define e2 where
    "e2 = ds_new_degradation_event now2 service_id rate2 window2 auto2 (Some existing) db1"
  define db2 where "db2 = insert_event e2 db1"
  define r1 where "r1 = ds_existing_incident_result format_2f service rate1 e1 existing"
  define r2 where "r2 = ds_existing_incident_result format_2f service rate2 e2 existing"
  have first: "ds_handle_degradation_and_incidents format_2f commit_ok1 now1 service_id rate1
          True window1 auto1 db = (Inr r1, db1)"
    unfolding r1_def db1_def e1_def using svc oi ok1 by (rule ds_handle_existing)
  have svc1: "get_service db1 service_id = Some service" using svc by (simp add: db1_def)
  have oi1: "ds_find_open_incident db1 service_id = Some existing"
    using oi by (simp add: db1_def)
  have second: "ds_handle_degradation_and_incidents format_2f commit_ok2 now2 service_id rate2
          True window2 auto2 db1 = (Inr r2, db2)"
    unfolding r2_def db2_def e2_def using svc1 oi1 ok2 by (rule ds_handle_existing)
  have r: "r_incident_id r1 = Some (ds_inc_id existing)"
      "r_incident_id r2 = Some (ds_inc_id existing)"
      "r_degradation_event_id r1 = Some (dse_id e1)"
      "r_degradation_event_id r2 = Some (dse_id e2)"
    by (simp_all add: r1_def r2_def ds_existing_incident_result_def)
  have i1: "incidents db1 = incidents db" by (simp add: db1_def insert_event_def)
  have d1: "degradation_events db1 = degradation_events db @ [e1]"
    by (simp add: db1_def insert_event_def)
  have i2: "incidents db2 = incidents db" by (simp add: db2_def db1_def insert_event_def)
  have d2: "degradation_events db2 = degradation_events db @ [e1, e2]"
    by (simp add: db2_def db1_def insert_event_def)
  have a1: "dse_service_id e1 = service_id \<and> dse_incident_id e1 = Some (ds_inc_id existing)"
    by (simp add: e1_def ds_new_degradation_event_def)
  have a2: "dse_service_id e2 = service_id \<and> dse_incident_id e2 = Some (ds_inc_id existing)"
    by (simp add: e2_def ds_new_degradation_event_def)
  show ?thesis using first second r i1 d1 i2 d2 a1 a2 by blast
qed

text \<open>
  An ACKNOWLEDGED incident with id 7: both calls return 7 and both events reference it.
\<close>

theorem degraded_call_joins_open_incident_witness:
  "get_service (example_db_with_incident ACKNOWLEDGED) 1 = Some example_service
   \<and> ds_find_open_incident (example_db_with_incident ACKNOWLEDGED) 1
       = Some (example_incident ACKNOWLEDGED)
   \<and> all_commits_ok Event_insert
   \<and> (\<exists>e1 e2 r1 r2 db1 db2.
      ds_handle_degradation_and_incidents percent_2f all_commits_ok (minutes 120) 1 80 True
          60 True (example_db_with_incident ACKNOWLEDGED) = (Inr r1, db1)
    \<and> ds_handle_degradation_and_incidents percent_2f all_commits_ok (minutes 121) 1 90 True
          60 False db1 = (Inr r2, db2)
    \<and> r_incident_id r1 = Some (ds_inc_id (example_incident ACKNOWLEDGED))
    \<and> r_incident_id r2 = Some (ds_inc_id (example_incident ACKNOWLEDGED))
    \<and> r_degradation_event_id r1 = Some (dse_id e1)
    \<and> r_degradation_event_id r2 = Some (dse_id e2)
    \<and> incidents db1 = incidents (example_db_with_incident ACKNOWLEDGED)
    \<and> degradation_events db1
        = degradation_events (example_db_with_incident ACKNOWLEDGED) @ [e1]
    \<and> incidents db2 = incidents (example_db_with_incident ACKNOWLEDGED)
    \<and> degradation_events db2
        = degradation_events (example_db_with_incident ACKNOWLEDGED) @ [e1, e2]
    \<and> dse_service_id e1 = 1
    \<and> dse_incident_id e1 = Some (ds_inc_id (example_incident ACKNOWLEDGED))
    \<and> dse_service_id e2 = 1
    \<and> dse_incident_id e2 = Some (ds_inc_id (example_incident ACKNOWLEDGED)))"
proof -
  have s: "get_service (example_db_with_incident ACKNOWLEDGED) 1 = Some example_service"
    by code_simp
  have f: "ds_find_open_incident (example_db_with_incident ACKNOWLEDGED) 1
             = Some (example_incident ACKNOWLEDGED)"
    by code_simp
  have c: "all_commits_ok Event_insert" by (simp add: all_commits_ok_def)
  show ?thesis
    using s f c
      degraded_call_joins_open_incident [where ?commit_ok1.0 = all_commits_ok and ?commit_ok2.0 = all_commits_ok
           and format_2f = percent_2f and ?now1.0 = "minutes 120" and ?rate1.0 = 80
           and ?window1.0 = 60 and ?auto1.0 = True and ?now2.0 = "minutes 121"
           and ?rate2.0 = 90 and ?window2.0 = 60 and ?auto2.0 = False, OF s f c c]
    by (intro conjI)
qed

text \<open>
  When no incident is open the first of two successive calls opens one and the second
  joins it: again one incident more and two events that reference it.
\<close>

lemma successive_calls_open_one_incident:
  assumes svc: "get_service db service_id = Some service"
    and none: "ds_find_open_incident db service_id = None"
  shows "\<exists>e1 e2 i r1 r2 db1 db2.
      ds_handle_degradation_and_incidents format_2f all_commits_ok now1 service_id rate1 True
          window1 auto1 db = (Inr r1, db1)
    \<and> ds_handle_degradation_and_incidents format_2f all_commits_ok now2 service_id rate2 True
          window2 auto2 db1 = (Inr r2, db2)
    \<and> r_incident_id r1 = Some (ds_inc_id i) \<and> r_incident_id r2 = Some (ds_inc_id i)
    \<and> incidents db2 = incidents db @ [i]
    \<and> degradation_events db2 = degradation_events db @ [e1, e2]
    \<and> ds_inc_service_id i = service_id \<and> ds_status i = OPEN
    \<and> dse_incident_id e1 = Some (ds_inc_id i) \<and> dse_incident_id e2 = Some (ds_inc_id i)"
proof -
  obtain e1 i r1 where
    first: "ds_handle_degradation_and_incidents format_2f all_commits_ok now1 service_id rate1
          True window1 auto1 db
        = (Inr r1,
           db\<lparr>degradation_events := degradation_events db @ [e1],
              incidents := incidents db @ [i]\<rparr>)"
    and r1: "r_incident_id r1 = Some (ds_inc_id i)"
    and e1: "dse_incident_id e1 = Some (ds_inc_id i)"
    and i: "ds_inc_service_id i = service_id" "ds_status i = OPEN"
    using ds_handle_opens_incident [OF svc none] by blast
  define db1 where
    "db1 = db\<lparr>degradation_events := degradation_events db @ [e1],
              incidents := incidents db @ [i]\<rparr>"
  define e2 where
    "e2 = ds_new_degradation_event now2 service_id rate2 window2 auto2 (Some i) db1"
  define r2 where "r2 = ds_existing_incident_result format_2f service rate2 e2 i"
  have svc1: "get_service db1 service_id = Some service"
    using svc by (simp add: db1_def get_service_def)
  have oi1: "ds_find_open_incident db1 service_id = Some i"
    unfolding db1_def using none i by (rule ds_find_open_incident_after_open)
  have ok: "all_commits_ok Event_insert" by (simp add: all_commits_ok_def)
  have second: "ds_handle_degradation_and_incidents format_2f all_commits_ok now2 service_id
          rate2 True window2 auto2 db1 = (Inr r2, insert_event e2 db1)"
    unfolding r2_def e2_def using svc1 oi1 ok by (rule ds_handle_existing)
  have r2: "r_incident_id r2 = Some (ds_inc_id i)"
    by (simp add: r2_def ds_existing_incident_result_def)
  have i2: "incidents (insert_event e2 db1) = incidents db @ [i]"
    by (simp add: insert_event_def db1_def)
  have d2: "degradation_events (insert_event e2 db1) = degradation_events db @ [e1, e2]"
    by (simp add: insert_event_def db1_def)
  have a2: "dse_incident_id e2 = Some (ds_inc_id i)"
    by (simp add: e2_def ds_new_degradation_event_def)
  show ?thesis
    using first [folded db1_def] second r1 r2 i2 d2 i e1 a2 by blast
qed

text \<open>
  Claim C3, as the code has it. The steps of a correlator call run with no lock and no
  enclosing transaction: each write is committed on its own. When the steps of two
  calls do not interleave (the first call has run its five steps before the second
  starts), a store with at most one OPEN or ACKNOWLEDGED incident for a service still
  has at most one afterwards. Calls that interleave are not protected.
\<close>

theorem serial_calls_keep_one_open_incident:
  assumes "length (ds_open_incidents db s) \<le> 1" and "5 \<le> m" and "5 \<le> n"
  shows "length (ds_open_incidents
           (snd (snd (interleave format_2f c1 c2 (replicate m True @ replicate n False)
                        (At_start, At_start, db)))) s) \<le> 1"
  unfolding interleave_serial [OF assms(2,3)]
  using run_call_keeps_one_open_incident [OF run_call_keeps_one_open_incident [OF assms(1)]]
  by simp

text \<open>
  Two degraded calls for service 1, one after the other, on a store without incidents:
  the first opens an incident, the second joins it.
\<close>

theorem serial_calls_keep_one_open_incident_witness:
  "length (ds_open_incidents (example_db []) 1) \<le> 1 \<and> (5::nat) \<le> 5
   \<and> length (ds_open_incidents
        (snd (snd (interleave percent_2f call_a call_b
                     (replicate 5 True @ replicate 5 False)
                     (At_start, At_start, example_db [])))) 1) \<le> 1"
proof -
  have h: "length (ds_open_incidents (example_db []) 1) \<le> 1" by code_simp
  have f: "(5::nat) \<le> 5" by simp
  show ?thesis
    using h f serial_calls_keep_one_open_incident [OF h f f, of percent_2f call_a call_b]
    by (intro conjI)
qed

text \<open>
  Claim C3 as stated fails. Two degraded calls for service 1 start on a store without
  incidents; both run their incident query before either inserts its incident, and the
  store ends with two OPEN incidents for the service.
\<close>

theorem concurrent_calls_open_two_incidents:
  "ds_open_incidents (example_db []) 1 = []
   \<and> map ds_status (ds_open_incidents
        (snd (snd (interleave percent_2f call_a call_b race_schedule
                     (At_start, At_start, example_db [])))) 1) = [OPEN, OPEN]"
  by code_simp

text \<open>
  Claim C4, as the code has it. If the degradation-event insert fails, the store is left
  as if the call never happened. If the incident insert fails, the degradation event
  committed before it remains, without an incident reference. If the back-fill update
  fails, that event, still without an incident reference, and the new OPEN incident
  both remain.
\<close>

theorem failed_commit_keeps_earlier_writes:
  assumes svc: "get_service db service_id = Some service"
  shows
   "(\<not> commit_ok Event_insert \<longrightarrow>
       ds_handle_degradation_and_incidents format_2f commit_ok now service_id failure_rate True
           time_window_minutes auto_triggered db
         = (Inl Commit_failed, db))
    \<and> (commit_ok Event_insert \<and> ds_find_open_incident db service_id = None
          \<and> \<not> commit_ok Incident_insert \<longrightarrow>
         (\<exists>e. ds_handle_degradation_and_incidents format_2f commit_ok now service_id failure_rate
                  True time_window_minutes auto_triggered db
                = (Inl Commit_failed, db\<lparr>degradation_events := degradation_events db @ [e]\<rparr>)
              \<and> dse_service_id e = service_id \<and> dse_incident_id e = None))
    \<and> (commit_ok Event_insert \<and> ds_find_open_incident db service_id = None
          \<and> commit_ok Incident_insert \<and> \<not> commit_ok Event_backfill \<longrightarrow>
         (\<exists>e i. ds_handle_degradation_and_incidents format_2f commit_ok now service_id
                    failure_rate True time_window_minutes auto_triggered db
                = (Inl Commit_failed,
                   db\<lparr>degradation_events := degradation_events db @ [e],
                      incidents := incidents db @ [i]\<rparr>)
              \<and> dse_service_id e = service_id \<and> dse_incident_id e = None
              \<and> ds_inc_service_id i = service_id \<and> ds_status i = OPEN))"
proof -
  define e where
    "e = ds_new_degradation_event now service_id failure_rate time_window_minutes
           auto_triggered None db"
  define i where
    "i = ds_new_incident format_2f now service_id failure_rate (insert_event e db)"
  have e: "dse_service_id e = service_id \<and> dse_incident_id e = None"
    by (simp add: e_def ds_new_degradation_event_def)
  have i: "ds_inc_service_id i = service_id \<and> ds_status i = OPEN"
    by (simp add: i_def ds_new_incident_def)
  have one: "ds_handle_degradation_and_incidents format_2f commit_ok now service_id failure_rate
           True time_window_minutes auto_triggered db
         = (Inl Commit_failed, db)" if "\<not> commit_ok Event_insert"
    using svc that by (simp add: ds_handle_degradation_and_incidents_def Let_def)
  have two: "ds_handle_degradation_and_incidents format_2f commit_ok now service_id failure_rate
           True time_window_minutes auto_triggered db
         = (Inl Commit_failed, db\<lparr>degradation_events := degradation_events db @ [e]\<rparr>)"
    if "commit_ok Event_insert" "ds_find_open_incident db service_id = None"
       "\<not> commit_ok Incident_insert"
    using svc that
    by (simp add: ds_handle_degradation_and_incidents_def Let_def e_def insert_event_def)
  have three: "ds_handle_degradation_and_incidents format_2f commit_ok now service_id
           failure_rate True time_window_minutes auto_triggered db
         = (Inl Commit_failed,
            db\<lparr>degradation_events := degradation_events db @ [e],
               incidents := incidents db @ [i]\<rparr>)"
    if "commit_ok Event_insert" "ds_find_open_incident db service_id = None"
       "commit_ok Incident_insert" "\<not> commit_ok Event_backfill"
    using svc that
    by (simp add: ds_handle_degradation_and_incidents_def Let_def e_def i_def insert_event_def
          insert_incident_def)
  show ?thesis using one two three e i by blast
qed

text \<open>
  The three failures on a store with one service and no incident.
\<close>

theorem failed_commit_keeps_earlier_writes_witness:
  "get_service (example_db []) 1 = Some example_service
   \<and> ds_find_open_incident (example_db []) 1 = None
   \<and> ds_handle_degradation_and_incidents percent_2f (commits_ok_except Event_insert)
        (minutes 120) 1 80 True 60 True (example_db []) = (Inl Commit_failed, example_db [])
   \<and> (\<exists>e. ds_handle_degradation_and_incidents percent_2f (commits_ok_except Incident_insert)
             (minutes 120) 1 80 True 60 True (example_db [])
           = (Inl Commit_failed,
              (example_db [])\<lparr>degradation_events := degradation_events (example_db []) @ [e]\<rparr>)
         \<and> dse_service_id e = 1 \<and> dse_incident_id e = None)
   \<and> (\<exists>e i. ds_handle_degradation_and_incidents percent_2f (commits_ok_except Event_backfill)
             (minutes 120) 1 80 True 60 True (example_db [])
           = (Inl Commit_failed,
              (example_db [])\<lparr>degradation_events := degradation_events (example_db []) @ [e],
                               incidents := incidents (example_db []) @ [i]\<rparr>)
         \<and> dse_service_id e = 1 \<and> dse_incident_id e = None
         \<and> ds_inc_service_id i = 1 \<and> ds_status i = OPEN)"
proof -
  have s: "get_service (example_db []) 1 = Some example_service" by code_simp
  have f: "ds_find_open_incident (example_db []) 1 = None" by code_simp
  note t = failed_commit_keeps_earlier_writes [OF s, where format_2f = percent_2f and now = "minutes 120" and failure_rate = 80
                 and time_window_minutes = 60 and auto_triggered = True]
  have a: "ds_handle_degradation_and_incidents percent_2f (commits_ok_except Event_insert)
        (minutes 120) 1 80 True 60 True (example_db []) = (Inl Commit_failed, example_db [])"
    using t [where commit_ok = "commits_ok_except Event_insert"]
    by (simp add: commits_ok_except_def)
  have b: "\<exists>e. ds_handle_degradation_and_incidents percent_2f (commits_ok_except Incident_insert)
             (minutes 120) 1 80 True 60 True (example_db [])
           = (Inl Commit_failed,
              (example_db [])\<lparr>degradation_events := degradation_events (example_db []) @ [e]\<rparr>)
         \<and> dse_service_id e = 1 \<and> dse_incident_id e = None"
    using t [where commit_ok = "commits_ok_except Incident_insert"] f
    by (simp add: commits_ok_except_def)
  have c: "\<exists>e i. ds_handle_degradation_and_incidents percent_2f (commits_ok_except Event_backfill)
             (minutes 120) 1 80 True 60 True (example_db [])
           = (Inl Commit_failed,
              (example_db [])\<lparr>degradation_events := degradation_events (example_db []) @ [e],
                               incidents := incidents (example_db []) @ [i]\<rparr>)
         \<and> dse_service_id e = 1 \<and> dse_incident_id e = None
         \<and> ds_inc_service_id i = 1 \<and> ds_status i = OPEN"
    using t [where commit_ok = "commits_ok_except Event_backfill"] f
    by (simp add: commits_ok_except_def)
  show ?thesis using s f a b c by (intro conjI)
qed

text \<open>
  Claim C4 as stated fails. When the incident insert fails, the call raises and the
  store, which held no degradation event, holds one whose incident reference is empty.
\<close>

theorem failed_incident_insert_leaves_event:
  "degradation_events (example_db []) = []
   \<and> fst (ds_handle_degradation_and_incidents percent_2f (commits_ok_except Incident_insert)
            (minutes 120) 1 80 True 60 True (example_db [])) = Inl Commit_failed
   \<and> map dse_incident_id
        (degradation_events
           (snd (ds_handle_degradation_and_incidents percent_2f
                   (commits_ok_except Incident_insert) (minutes 120) 1 80 True 60 True
                   (example_db [])))) = [None]"
  by code_simp

text \<open>
  Claim C6, as the code has it. A call with a not-degraded decision performs no storage
  write for any service id. For the id of an existing service it returns the result
  that says the service is not degraded, with no incident id; for an unknown id it
  raises the not-found error.
\<close>

theorem not_degraded_call_writes_nothing:
  "snd (ds_handle_degradation_and_incidents format_2f commit_ok now service_id failure_rate
          False time_window_minutes auto_triggered db) = db
   \<and> fst (ds_handle_degradation_and_incidents format_2f commit_ok now service_id failure_rate
            False time_window_minutes auto_triggered db)
       = (case get_service db service_id of
            None \<Rightarrow> Inl (Service_not_found service_id)
          | Some service \<Rightarrow>
              Inr \<lparr>r_degradation_event_id = None, r_incident_id = None,
                   r_message = ''Service '' @ service_name service
                     @ '' is not degraded (failure rate: '' @ format_2f failure_rate @ ''%)''\<rparr>)"
  by (simp add: ds_handle_not_degraded ds_not_degraded_result_def split: option.split)

text \<open>
  Claim C6 as stated fails for a service id that no service has: the call returns no
  result, it raises.
\<close>

theorem not_degraded_unknown_service_raises:
  "ds_handle_degradation_and_incidents percent_2f all_commits_ok (minutes 120) 99 0 False 60 True
     (example_db []) = (Inl (Service_not_found 99), example_db [])"
  by code_simp



section \<open>The prober's observation\<close>

text \<open>
  Claim C5. For every probed service, \<open>check_single_endpoint\<close> returns an observation and
  raises nothing, whatever the two requests do: a completed response yields its status
  code, healthy exactly when the code is in \<open>[200, 300)\<close>; a request that raises yields
  unhealthy with the sentinel status code 0.
\<close>

theorem check_single_endpoint_returns_observation:
  "\<exists>r printed.
      check_single_endpoint requests_get requests_post now service = Inr (r, printed)
    \<and> cr_service_id r = cs_id service
    \<and> (case requests_get (endpoint service) of
          Inr code \<Rightarrow> cr_status_code r = code \<and> cr_is_health r = (200 \<le> code \<and> code < 300)
        | Inl e \<Rightarrow> cr_status_code r = 0 \<and> \<not> cr_is_health r)"
  by (auto simp add: check_single_endpoint_def Let_def split: sum.split exn.split prod.split)

text \<open>
  A 204 answer, a 500 answer and a request that times out.
\<close>

lemma check_single_endpoint_examples:
  "map_sum id fst (check_single_endpoint (get_returns 204) post_raises (minutes 120) example_service)
     = Inr \<lparr>cr_service_id = 1, cr_is_health = True, cr_timestamp = minutes 120,
            cr_status_code = 204, cr_service_name = ''payments''\<rparr>"
  "map_sum id fst (check_single_endpoint (get_returns 500) post_raises (minutes 120) example_service)
     = Inr \<lparr>cr_service_id = 1, cr_is_health = False, cr_timestamp = minutes 120,
            cr_status_code = 500, cr_service_name = ''payments''\<rparr>"
  "map_sum id fst (check_single_endpoint get_raises post_degraded (minutes 120) example_service)
     = Inr \<lparr>cr_service_id = 1, cr_is_health = False, cr_timestamp = minutes 120,
            cr_status_code = 0, cr_service_name = ''payments''\<rparr>"
  by code_simp+


section \<open>Updating an incident\<close>

text \<open>
  Claim C10. \<open>update_incident\<close> is to apply every field of \<open>update_data\<close> whose value is
  not \<open>None\<close>, refresh \<open>updated_at\<close> and store the row, for any current and any new
  status. As committed it does not: its first statement, the query for the incident,
  raises \<^verbatim>\<open>AmbiguousForeignKeysError\<close>, because the table classes it is written for do not
  configure. Moving the stored CLOSED incident 7 back to OPEN raises and leaves the
  store as it was.
\<close>

theorem update_incident_raises_on_reopen:
  "get_incident (app_example_db CLOSED) 7 = Some (app_example_incident CLOSED)
   \<and> update_incident True (minutes 120) 7 reopen_request (app_example_db CLOSED)
       = (Inl AmbiguousForeignKeysError, app_example_db CLOSED)"
  by code_simp

end
